theory Spec2Isabelle
  imports Complex_Main "HOL-Library.Word"
begin

unbundle bit_operations_syntax

section \<open>Shuriken waveform item: the embedding\<close>

text \<open>
  The embedding follows \<^verbatim>\<open>src/waveformitem.cpp\<close>. Numbers of type \<^verbatim>\<open>qreal\<close> and
  \<^verbatim>\<open>float\<close> are modelled as \<^typ>\<open>real\<close>: floating-point rounding is abstracted, and a
  quotient whose divisor is zero (an IEEE infinity or NaN in the program) is an explicit
  error of the model. Values of type \<^verbatim>\<open>int\<close> are modelled as \<^typ>\<open>int\<close>; the bin and
  order arithmetic of the source is assumed to stay inside the 32-bit range (signed
  overflow is undefined in C++).
\<close>

subsection \<open>Conversions and constants\<close>

text \<open>The C++ conversion from \<^verbatim>\<open>double\<close> to \<^verbatim>\<open>int\<close> discards the fraction (towards zero).\<close>

definition int_of_qreal :: "real \<Rightarrow> int" where
  "int_of_qreal x = (if 0 \<le> x then \<lfloor>x\<rfloor> else \<lceil>x\<rceil>)"

text \<open>
  The constants of \<^verbatim>\<open>waveformitem.h\<close>, a header that is not among the source files:
  they are parameters of the model.
\<close>

record header_consts =
  NOT_SET :: int
  DETAIL_LEVEL_MAX_CUTOFF :: real
  DETAIL_LEVEL_VERY_HIGH_CUTOFF :: real
  DETAIL_LEVEL_HIGH_CUTOFF :: real

text \<open>\<^verbatim>\<open>BpmRuler::HEIGHT\<close> of globals.h.\<close>

definition BpmRuler_HEIGHT :: real where
  "BpmRuler_HEIGHT = 18"

datatype detail_level = LOW | HIGH | VERY_HIGH

subsection \<open>The sample buffer (collaborator)\<close>

text \<open>
  The shared sample buffer: one list of sample values per channel. Its min/max query
  \<^verbatim>\<open>findMinMax(chan, startFrame, numFrames)\<close> belongs to the collaborator and is a
  parameter of the buffer.
\<close>

record sample_buffer =
  channelData :: "real list list"
  findMinMax :: "nat \<Rightarrow> int \<Rightarrow> int \<Rightarrow> real \<times> real"

definition getNumChannels :: "sample_buffer \<Rightarrow> nat" where
  "getNumChannels b = length (channelData b)"

definition getNumFrames :: "sample_buffer \<Rightarrow> int" where
  "getNumFrames b = (case channelData b of [] \<Rightarrow> 0 | c # _ \<Rightarrow> int (length c))"

text \<open>Reading one sample through a read pointer; outside the channel's data it is an error.\<close>

datatype error = NotARealNumber | SampleReadOutOfBounds | NegativeArrayLength

definition readSample :: "sample_buffer \<Rightarrow> nat \<Rightarrow> int \<Rightarrow> error + real" where
  "readSample b chanNum frame =
     (if chanNum < length (channelData b) \<and> 0 \<le> frame
         \<and> frame < int (length (channelData b ! chanNum))
      then Inr (channelData b ! chanNum ! nat frame)
      else Inl SampleReadOutOfBounds)"

subsection \<open>The item's state and what it does to its collaborators\<close>

record qrectf =
  rx :: real
  ry :: real
  rwidth :: real
  rheight :: real

type_synonym qpointf = "real \<times> real"

datatype which_array = MinValues | MaxValues
datatype pen = ItemPen | CentreLinePen | WavePen
datatype brush = ItemBrush | HighlightBrush
datatype signal = sampleDetailLevelReached | maxDetailLevelReached | sampleBinDetailLevelReached

text \<open>
  The trace of a call: signals emitted, calls on the per-channel cache arrays
  (\<open>ArrayResize a chan n\<close>, \<open>ArraySet a chan index value\<close>, \<open>ArrayGet a chan index\<close>),
  min/max queries on the sample buffer (\<open>FindMinMax chan startFrame numFrames\<close>)
  and calls on the painter.
\<close>

datatype event =
    Emit signal
  | ArrayResize which_array nat int
  | ArraySet which_array nat int real
  | ArrayGet which_array nat int
  | FindMinMax nat int int
  | SetPen pen
  | SetBrush brush
  | DrawRect qrectf
  | Save
  | Restore
  | Scale real real
  | Translate real real
  | DrawLine qpointf qpointf
  | DrawPolyline "qpointf list"

record waveform_item =
  sampleBuffer :: sample_buffer
  rect :: qrectf
  globalScaleFactor :: real
  stretchRatio :: real
  firstCalculatedBin :: int
  lastCalculatedBin :: int
  numBins :: int
  binSize :: real
  detailLevel :: detail_level
  minSampleValues :: "nat \<Rightarrow> int \<Rightarrow> real"
  maxSampleValues :: "nat \<Rightarrow> int \<Rightarrow> real"

subsection \<open>resetSampleBins\<close>

definition detailLevelFor :: "header_consts \<Rightarrow> real \<Rightarrow> detail_level" where
  "detailLevelFor P b =
     (if b \<le> DETAIL_LEVEL_VERY_HIGH_CUTOFF P then VERY_HIGH
      else if b \<le> DETAIL_LEVEL_HIGH_CUTOFF P then HIGH
      else LOW)"

definition resizeArrays :: "nat \<Rightarrow> int \<Rightarrow> event list" where
  "resizeArrays numChans n =
     concat (map (\<lambda>chanNum. [ArrayResize MinValues chanNum n, ArrayResize MaxValues chanNum n])
                 [0..<numChans])"

definition resetSampleBins ::
  "header_consts \<Rightarrow> waveform_item \<Rightarrow> error + (waveform_item \<times> event list)" where
  "resetSampleBins P s =
     (let numChans = getNumChannels (sampleBuffer s);
          s1 = s\<lparr>firstCalculatedBin := NOT_SET P, lastCalculatedBin := NOT_SET P\<rparr>;
          d = rwidth (rect s1) * globalScaleFactor s1
      in if d = 0 then Inl NotARealNumber
         else
           let s2 = s1\<lparr>numBins := int_of_qreal d,
                       binSize := real_of_int (getNumFrames (sampleBuffer s1)) / d\<rparr>
           in if binSize s2 \<le> DETAIL_LEVEL_VERY_HIGH_CUTOFF P then
                Inr (s2\<lparr>detailLevel := VERY_HIGH\<rparr>,
                     Emit sampleDetailLevelReached #
                     (if binSize s2 \<le> DETAIL_LEVEL_MAX_CUTOFF P
                      then [Emit maxDetailLevelReached] else []))
              else if binSize s2 \<le> DETAIL_LEVEL_HIGH_CUTOFF P then
                Inr (s2\<lparr>detailLevel := HIGH\<rparr>,
                     resizeArrays numChans (numBins s2) @ [Emit sampleBinDetailLevelReached])
              else
                Inr (s2\<lparr>detailLevel := LOW\<rparr>,
                     resizeArrays numChans (numBins s2) @ [Emit sampleBinDetailLevelReached]))"

subsection \<open>findMinMaxSamples\<close>

text \<open>One pass of the inner loop body: query the buffer for a bin and store the range.\<close>

definition fillBin :: "nat \<Rightarrow> int \<Rightarrow> waveform_item \<times> event list \<Rightarrow> waveform_item \<times> event list" where
  "fillBin chanNum binNum acc =
     (let s = fst acc;
          startFrame = int_of_qreal (real_of_int binNum * binSize s);
          len = int_of_qreal (binSize s);
          range = findMinMax (sampleBuffer s) chanNum startFrame len;
          s' = s\<lparr>minSampleValues := (minSampleValues s)
                     (chanNum := (minSampleValues s chanNum)(binNum := fst range)),
                 maxSampleValues := (maxSampleValues s)
                     (chanNum := (maxSampleValues s chanNum)(binNum := snd range))\<rparr>
      in (s', snd acc @ [FindMinMax chanNum startFrame len,
                         ArraySet MinValues chanNum binNum (fst range),
                         ArraySet MaxValues chanNum binNum (snd range)]))"

definition findMinMaxSamples :: "int \<Rightarrow> int \<Rightarrow> waveform_item \<Rightarrow> waveform_item \<times> event list" where
  "findMinMaxSamples startBin endBin s =
     fold (\<lambda>chanNum. fold (fillBin chanNum) [startBin..endBin])
          [0..<getNumChannels (sampleBuffer s)] (s, [])"

subsection \<open>drawWaveformFromSampleBins\<close>

definition firstVisibleBin :: "waveform_item \<Rightarrow> real \<Rightarrow> int" where
  "firstVisibleBin s exposedRectLeft = max \<lfloor>exposedRectLeft * globalScaleFactor s\<rfloor> 0"

definition lastVisibleBin :: "waveform_item \<Rightarrow> real \<Rightarrow> int" where
  "lastVisibleBin s exposedRectRight =
     min \<lceil>exposedRectRight * globalScaleFactor s\<rceil> (numBins s - 1)"

text \<open>
  The three conditional fills in the first half of \<^verbatim>\<open>drawWaveformFromSampleBins\<close>
  that bring the cache up to the visible range \<open>fv..lv\<close>.
\<close>

definition fillWhenNotSet ::
  "header_consts \<Rightarrow> int \<Rightarrow> int \<Rightarrow> waveform_item \<Rightarrow> waveform_item \<times> event list" where
  "fillWhenNotSet P fv lv s =
     (if firstCalculatedBin s = NOT_SET P \<or> lastCalculatedBin s = NOT_SET P then
        (let r = findMinMaxSamples fv lv s
         in ((fst r)\<lparr>firstCalculatedBin := fv, lastCalculatedBin := lv\<rparr>, snd r))
      else (s, []))"

definition fillBefore :: "int \<Rightarrow> waveform_item \<Rightarrow> waveform_item \<times> event list" where
  "fillBefore fv s =
     (if fv < firstCalculatedBin s then
        (let r = findMinMaxSamples fv (firstCalculatedBin s - 1) s
         in ((fst r)\<lparr>firstCalculatedBin := fv\<rparr>, snd r))
      else (s, []))"

definition fillAfter :: "int \<Rightarrow> waveform_item \<Rightarrow> waveform_item \<times> event list" where
  "fillAfter lv s =
     (if lv > lastCalculatedBin s then
        (let r = findMinMaxSamples (lastCalculatedBin s + 1) lv s
         in ((fst r)\<lparr>lastCalculatedBin := lv\<rparr>, snd r))
      else (s, []))"

definition cacheVisibleBins ::
  "header_consts \<Rightarrow> int \<Rightarrow> int \<Rightarrow> waveform_item \<Rightarrow> waveform_item \<times> event list" where
  "cacheVisibleBins P fv lv s =
     (let r1 = fillWhenNotSet P fv lv s;
          r2 = fillBefore fv (fst r1);
          r3 = fillAfter lv (fst r2)
      in (fst r3, snd r1 @ snd r2 @ snd r3))"

text \<open>The drawing half: one pass of the inner loops for LOW and for HIGH.\<close>

definition lowBin :: "waveform_item \<Rightarrow> nat \<Rightarrow> real \<Rightarrow> int \<Rightarrow> event list" where
  "lowBin s chanNum reciprocalScaleFactor bin =
     [ArrayGet MinValues chanNum bin, ArrayGet MaxValues chanNum bin,
      DrawLine (real_of_int bin * reciprocalScaleFactor, - minSampleValues s chanNum bin)
               (real_of_int bin * reciprocalScaleFactor, - maxSampleValues s chanNum bin)]"

definition highBinPoints :: "waveform_item \<Rightarrow> nat \<Rightarrow> real \<Rightarrow> int \<Rightarrow> qpointf list" where
  "highBinPoints s chanNum reciprocalScaleFactor bin =
     [(real_of_int bin * reciprocalScaleFactor, - minSampleValues s chanNum bin),
      (real_of_int bin * reciprocalScaleFactor, - maxSampleValues s chanNum bin)]"

definition drawBins :: "waveform_item \<Rightarrow> int \<Rightarrow> int \<Rightarrow> error + event list" where
  "drawBins s fv lv =
     (let numVisibleBins = lv - fv + 1;
          numChans = getNumChannels (sampleBuffer s);
          bins = map (\<lambda>count. fv + count) [0..numVisibleBins - 1]
      in if globalScaleFactor s = 0 then Inl NotARealNumber
         else
           let reciprocalScaleFactor = 1 / globalScaleFactor s
           in if detailLevel s = LOW then
                Inr (concat (map (\<lambda>chanNum.
                        concat (map (lowBin s chanNum reciprocalScaleFactor) bins)
                        @ [Translate 0 (real numChans)]) [0..<numChans]))
              else if detailLevel s = HIGH then
                (if 0 < numChans \<and> numVisibleBins * 2 < 0 then Inl NegativeArrayLength
                 else
                   Inr (concat (map (\<lambda>chanNum.
                          concat (map (\<lambda>bin. [ArrayGet MinValues chanNum bin,
                                               ArrayGet MaxValues chanNum bin]) bins)
                          @ [DrawPolyline
                               (concat (map (highBinPoints s chanNum reciprocalScaleFactor) bins)),
                             Translate 0 (real numChans)]) [0..<numChans])))
              else Inr [])"

definition drawWaveformFromSampleBins ::
  "header_consts \<Rightarrow> waveform_item \<Rightarrow> real \<Rightarrow> real \<Rightarrow> error + (waveform_item \<times> event list)" where
  "drawWaveformFromSampleBins P s exposedRectLeft exposedRectRight =
     (let fv = firstVisibleBin s exposedRectLeft;
          lv = lastVisibleBin s exposedRectRight;
          r = cacheVisibleBins P fv lv s
      in case drawBins (fst r) fv lv of
           Inl e \<Rightarrow> Inl e
         | Inr evs \<Rightarrow> Inr (fst r, snd r @ evs))"

subsection \<open>drawWaveformFromSamples\<close>

fun samplePoints :: "sample_buffer \<Rightarrow> nat \<Rightarrow> real \<Rightarrow> int list \<Rightarrow> error + qpointf list" where
  "samplePoints b chanNum distanceBetweenFrames [] = Inr []"
| "samplePoints b chanNum distanceBetweenFrames (frame # frames) =
     (case readSample b chanNum frame of
        Inl e \<Rightarrow> Inl e
      | Inr v \<Rightarrow>
          (case samplePoints b chanNum distanceBetweenFrames frames of
             Inl e \<Rightarrow> Inl e
           | Inr ps \<Rightarrow> Inr ((real_of_int frame * distanceBetweenFrames, - v) # ps)))"

fun samplePolylines ::
  "sample_buffer \<Rightarrow> real \<Rightarrow> int list \<Rightarrow> nat \<Rightarrow> nat list \<Rightarrow> error + event list" where
  "samplePolylines b distanceBetweenFrames frames numChans [] = Inr []"
| "samplePolylines b distanceBetweenFrames frames numChans (chanNum # chans) =
     (case samplePoints b chanNum distanceBetweenFrames frames of
        Inl e \<Rightarrow> Inl e
      | Inr ps \<Rightarrow>
          (case samplePolylines b distanceBetweenFrames frames numChans chans of
             Inl e \<Rightarrow> Inl e
           | Inr evs \<Rightarrow> Inr (DrawPolyline ps # Translate 0 (real numChans) # evs)))"

definition firstVisibleFrame :: "waveform_item \<Rightarrow> real \<Rightarrow> int" where
  "firstVisibleFrame s exposedRectLeft =
     \<lfloor>exposedRectLeft / (rwidth (rect s) / real_of_int (getNumFrames (sampleBuffer s)))\<rfloor>"

definition lastVisibleFrame :: "waveform_item \<Rightarrow> real \<Rightarrow> int" where
  "lastVisibleFrame s exposedRectRight =
     min \<lceil>exposedRectRight / (rwidth (rect s) / real_of_int (getNumFrames (sampleBuffer s)))\<rceil>
         (getNumFrames (sampleBuffer s) - 1)"

definition drawWaveformFromSamples :: "waveform_item \<Rightarrow> real \<Rightarrow> real \<Rightarrow> error + event list" where
  "drawWaveformFromSamples s exposedRectLeft exposedRectRight =
     (if getNumFrames (sampleBuffer s) = 0 \<or> rwidth (rect s) = 0 then Inl NotARealNumber
      else
        let distanceBetweenFrames = rwidth (rect s) / real_of_int (getNumFrames (sampleBuffer s));
            fvf = firstVisibleFrame s exposedRectLeft;
            lvf = lastVisibleFrame s exposedRectRight;
            numVisibleFrames = lvf - fvf + 1;
            numChans = getNumChannels (sampleBuffer s)
        in if 0 < numChans \<and> numVisibleFrames < 0 then Inl NegativeArrayLength
           else samplePolylines (sampleBuffer s) distanceBetweenFrames
                  (map (\<lambda>count. fvf + count) [0..numVisibleFrames - 1]) numChans [0..<numChans])"

subsection \<open>paint\<close>

text \<open>The zoom check at the head of \<^verbatim>\<open>paint\<close>; \<open>m11\<close> is the painter's horizontal scale factor.\<close>

definition paintRescale ::
  "header_consts \<Rightarrow> waveform_item \<Rightarrow> real \<Rightarrow> error + (waveform_item \<times> event list)" where
  "paintRescale P s m11 =
     (if globalScaleFactor s \<noteq> m11 then resetSampleBins P (s\<lparr>globalScaleFactor := m11\<rparr>)
      else Inr (s, []))"

definition paintWaveform ::
  "header_consts \<Rightarrow> waveform_item \<Rightarrow> real \<Rightarrow> real \<Rightarrow> error + (waveform_item \<times> event list)" where
  "paintWaveform P s exposedLeft exposedRight =
     (if detailLevel s \<noteq> VERY_HIGH then drawWaveformFromSampleBins P s exposedLeft exposedRight
      else (case drawWaveformFromSamples s exposedLeft exposedRight of
              Inl e \<Rightarrow> Inl e
            | Inr evs \<Rightarrow> Inr (s, evs)))"

definition paintBackground :: "waveform_item \<Rightarrow> event list" where
  "paintBackground s1 =
     (let numChans = getNumChannels (sampleBuffer s1)
      in [SetPen ItemPen, SetBrush ItemBrush, DrawRect (rect s1), Save,
          Scale 1 (rheight (rect s1) * (1 / 2) / real numChans),
          Save, Translate 0 1, SetPen CentreLinePen]
         @ concat (replicate numChans
             [DrawLine (0, 0) (rwidth (rect s1), 0), Translate 0 (1 * real numChans)])
         @ [Restore, Translate 0 1, SetPen WavePen])"

definition paint ::
  "header_consts \<Rightarrow> waveform_item \<Rightarrow> real \<Rightarrow> real \<Rightarrow> real \<Rightarrow> bool
     \<Rightarrow> error + (waveform_item \<times> event list)" where
  "paint P s m11 exposedLeft exposedRight selected =
     (case paintRescale P s m11 of
        Inl e \<Rightarrow> Inl e
      | Inr r1 \<Rightarrow>
          if getNumChannels (sampleBuffer s) = 0 then Inl NotARealNumber
          else
            (case paintWaveform P (fst r1) exposedLeft exposedRight of
               Inl e \<Rightarrow> Inl e
             | Inr r2 \<Rightarrow>
                 Inr (fst r2,
                      snd r1 @ paintBackground (fst r1) @ snd r2 @ [Restore]
                      @ (if selected then [SetBrush HighlightBrush, DrawRect (rect (fst r1))]
                         else []))))"

text \<open>\<^verbatim>\<open>setRect\<close>: a geometry change resets the bins once a scale factor is established.\<close>

definition setRect ::
  "header_consts \<Rightarrow> waveform_item \<Rightarrow> qrectf \<Rightarrow> error + (waveform_item \<times> event list)" where
  "setRect P s r =
     (let s1 = s\<lparr>rect := r\<rparr>
      in if globalScaleFactor s1 \<noteq> real_of_int (NOT_SET P) then resetSampleBins P s1
         else Inr (s1, []))"

section \<open>The drag reorder controller\<close>

subsection \<open>Scene items, events and signals\<close>

text \<open>
  What the handlers read of an item of the scene: its identity (the pointer), its
  \<^verbatim>\<open>type()\<close>, its order position (\<^verbatim>\<open>getOrderPos()\<close>, for a waveform item), its scene
  position and its rect.
\<close>

record scene_item =
  itemId :: nat
  itemType :: int
  orderPos :: int
  scenePos :: qpointf
  itemRect :: qrectf

text \<open>Constants of Qt (\<^verbatim>\<open>QGraphicsItem::UserType\<close>) and of globals.h.\<close>

definition QGraphicsItem_UserType :: int where
  "QGraphicsItem_UserType = 65536"

definition UserTypes_WAVEFORM :: int where
  "UserTypes_WAVEFORM = QGraphicsItem_UserType + 1"

definition UserTypes_SLICE_POINT :: int where
  "UserTypes_SLICE_POINT = QGraphicsItem_UserType + 2"

definition UserTypes_LOOP_MARKER :: int where
  "UserTypes_LOOP_MARKER = QGraphicsItem_UserType + 3"

text \<open>
  Modelled from the spec: \<^verbatim>\<open>WaveformItem::Type\<close> is declared in waveformitem.h, which is
  not among the source files. The spec's scene-item kinds are Waveform, SlicePoint and
  LoopMarker; the waveform kind is taken to be \<^verbatim>\<open>UserTypes::WAVEFORM\<close> of globals.h.
\<close>

definition WaveformItem_Type :: int where
  "WaveformItem_Type = UserTypes_WAVEFORM"



text \<open>Constants of Qt: keyboard modifier, mouse button and item flags.\<close>

definition ControlModifier :: "32 word" where
  "ControlModifier = 0x04000000"

definition RightButton :: "32 word" where
  "RightButton = 0x00000002"

definition ItemIsMovable :: "32 word" where
  "ItemIsMovable = 0x1"

definition ItemIsSelectable :: "32 word" where
  "ItemIsSelectable = 0x2"

definition center_x :: "qrectf \<Rightarrow> real" where
  "center_x r = rx r + rwidth r / 2"

record mouse_event =
  modifiers :: "32 word"
  button :: "32 word"
  eventScenePos :: qpointf
  screenPos_x :: int
  lastScreenPos_x :: int
  accepted :: bool

datatype item_signal =
    clicked nat qpointf
  | orderPosIsChanging "int list" int
  | orderPosHasChanged "int list" int
  | finishedMoving int
  | BaseMousePressEvent mouse_event

datatype handler_error = EmptyList

subsection \<open>itemChange\<close>

datatype graphics_item_change = ItemPositionChange | ItemSelectedHasChanged | OtherChange






subsection \<open>mousePressEvent\<close>

text \<open>
  The result is the event as the handler leaves it, the value of
  \<^verbatim>\<open>m_orderPosBeforeMove\<close> afterwards, and the calls and signals in order.
\<close>

definition mousePressEvent ::
  "scene_item \<Rightarrow> 32 word \<Rightarrow> int \<Rightarrow> mouse_event \<Rightarrow> mouse_event \<times> int \<times> item_signal list" where
  "mousePressEvent this flags orderPosBeforeMove event =
     (let event1 = event\<lparr>modifiers := modifiers event AND NOT ControlModifier\<rparr>
      in if flags AND ItemIsSelectable \<noteq> 0 then
           (if flags AND ItemIsMovable \<noteq> 0 then
              (if button event1 = RightButton then
                 (event1\<lparr>accepted := False\<rparr>, orderPosBeforeMove, [])
               else (event1, orderPos this, [BaseMousePressEvent event1]))
            else (event1\<lparr>accepted := False\<rparr>, orderPosBeforeMove, []))
         else (event1\<lparr>accepted := False\<rparr>, orderPosBeforeMove,
               [clicked (itemId this) (eventScenePos event1)]))"

subsection \<open>mouseMoveEvent\<close>

text \<open>
  \<open>selectedItems\<close> is the scene's list of selected waveforms and \<open>itemsAt\<close> its lookup of
  the items at a scene point, both read after the base class has moved the items.
  \<^verbatim>\<open>first()\<close> and \<^verbatim>\<open>last()\<close> of an empty list are errors.
\<close>

definition collectOrderPositions :: "scene_item list \<Rightarrow> int list" where
  "collectOrderPositions selectedItems = fold (\<lambda>item acc. acc @ [orderPos item]) selectedItems []"

definition dragLeft ::
  "scene_item \<Rightarrow> scene_item list \<Rightarrow> (qpointf \<Rightarrow> scene_item list)
     \<Rightarrow> handler_error + item_signal list" where
  "dragLeft this selectedItems itemsAt =
     (case selectedItems of
        [] \<Rightarrow> Inl EmptyList
      | leftmost # _ \<Rightarrow>
          (let leftmostSelectedItemScenePos = scenePos leftmost;
               leftmostSelectedItemOrderPos = orderPos leftmost
           in case rev (itemsAt leftmostSelectedItemScenePos) of
                [] \<Rightarrow> Inl EmptyList
              | otherItem # _ \<Rightarrow>
                  if itemId otherItem \<noteq> itemId this \<and> itemType otherItem = WaveformItem_Type
                     \<and> orderPos otherItem < leftmostSelectedItemOrderPos
                     \<and> fst leftmostSelectedItemScenePos
                         < fst (scenePos otherItem) + center_x (itemRect otherItem)
                  then Inr [orderPosIsChanging (collectOrderPositions selectedItems)
                              (orderPos otherItem - leftmostSelectedItemOrderPos)]
                  else Inr []))"

definition dragRight ::
  "scene_item \<Rightarrow> scene_item list \<Rightarrow> (qpointf \<Rightarrow> scene_item list)
     \<Rightarrow> handler_error + item_signal list" where
  "dragRight this selectedItems itemsAt =
     (case rev selectedItems of
        [] \<Rightarrow> Inl EmptyList
      | rightmost # _ \<Rightarrow>
          (let rightmostSelectedItemOrderPos = orderPos rightmost;
               rightmostSelectedItemRightEdge =
                 fst (scenePos rightmost) + rwidth (itemRect rightmost) - 1
           in case rev (itemsAt (rightmostSelectedItemRightEdge, BpmRuler_HEIGHT)) of
                [] \<Rightarrow> Inl EmptyList
              | otherItem # _ \<Rightarrow>
                  if itemId otherItem \<noteq> itemId this \<and> itemType otherItem = WaveformItem_Type
                     \<and> orderPos otherItem > rightmostSelectedItemOrderPos
                     \<and> rightmostSelectedItemRightEdge
                         > fst (scenePos otherItem) + center_x (itemRect otherItem)
                  then Inr [orderPosIsChanging (collectOrderPositions selectedItems)
                              (orderPos otherItem - rightmostSelectedItemOrderPos)]
                  else Inr []))"

definition mouseMoveEvent ::
  "scene_item \<Rightarrow> scene_item list \<Rightarrow> (qpointf \<Rightarrow> scene_item list) \<Rightarrow> mouse_event
     \<Rightarrow> handler_error + item_signal list" where
  "mouseMoveEvent this selectedItems itemsAt event =
     (case (if screenPos_x event < lastScreenPos_x event
            then dragLeft this selectedItems itemsAt else Inr []) of
        Inl e \<Rightarrow> Inl e
      | Inr sigs1 \<Rightarrow>
          (case (if screenPos_x event > lastScreenPos_x event
                 then dragRight this selectedItems itemsAt else Inr []) of
             Inl e \<Rightarrow> Inl e
           | Inr sigs2 \<Rightarrow> Inr (sigs1 @ sigs2)))"

subsection \<open>mouseReleaseEvent\<close>

definition mouseReleaseEvent :: "scene_item \<Rightarrow> int \<Rightarrow> scene_item list \<Rightarrow> item_signal list" where
  "mouseReleaseEvent this orderPosBeforeMove selectedItems =
     (if orderPosBeforeMove \<noteq> orderPos this then
        (let numPlacesMoved = orderPos this - orderPosBeforeMove;
             oldOrderPositions =
               fold (\<lambda>item acc. acc @ [orderPos item - numPlacesMoved]) selectedItems []
         in [orderPosHasChanged oldOrderPositions numPlacesMoved])
      else [])
     @ fold (\<lambda>item acc. acc @ [finishedMoving (orderPos item)]) selectedItems []"

section \<open>Observations on traces and states\<close>

subsection \<open>The renderer\<close>

text \<open>The events of one pass of the inner loop of \<^verbatim>\<open>findMinMaxSamples\<close>, in closed form.\<close>

definition binEvents :: "waveform_item \<Rightarrow> nat \<Rightarrow> int \<Rightarrow> event list" where
  "binEvents s chanNum binNum =
     (let startFrame = int_of_qreal (real_of_int binNum * binSize s);
          len = int_of_qreal (binSize s);
          range = findMinMax (sampleBuffer s) chanNum startFrame len
      in [FindMinMax chanNum startFrame len,
          ArraySet MinValues chanNum binNum (fst range),
          ArraySet MaxValues chanNum binNum (snd range)])"

definition fillEvents :: "waveform_item \<Rightarrow> int \<Rightarrow> int \<Rightarrow> event list" where
  "fillEvents s startBin endBin =
     concat (map (\<lambda>c. concat (map (binEvents s c) [startBin..endBin]))
                 [0..<getNumChannels (sampleBuffer s)])"

text \<open>The min/max queries of a trace, and the (channel, bin) pairs whose cache entry it fills.\<close>

fun isFindMinMax :: "event \<Rightarrow> bool" where
  "isFindMinMax (FindMinMax c a n) = True"
| "isFindMinMax _ = False"

fun filledBin :: "event \<Rightarrow> (nat \<times> int) list" where
  "filledBin (ArraySet MinValues c b v) = [(c, b)]"
| "filledBin _ = []"

definition minMaxQueries :: "event list \<Rightarrow> event list" where
  "minMaxQueries evs = filter isFindMinMax evs"

definition binsFilled :: "event list \<Rightarrow> (nat \<times> int) list" where
  "binsFilled evs = concat (map filledBin evs)"

text \<open>Every (channel, index) at which a trace reads or writes a cache array.\<close>

fun accessedBin :: "event \<Rightarrow> (nat \<times> int) list" where
  "accessedBin (ArraySet a c b v) = [(c, b)]"
| "accessedBin (ArrayGet a c b) = [(c, b)]"
| "accessedBin _ = []"

definition binsAccessed :: "event list \<Rightarrow> (nat \<times> int) list" where
  "binsAccessed evs = concat (map accessedBin evs)"

fun resizeOf :: "event \<Rightarrow> (which_array \<times> nat \<times> int) list" where
  "resizeOf (ArrayResize a c n) = [(a, c, n)]"
| "resizeOf _ = []"

definition resizes :: "event list \<Rightarrow> (which_array \<times> nat \<times> int) list" where
  "resizes evs = concat (map resizeOf evs)"

fun polylineOf :: "event \<Rightarrow> qpointf list list" where
  "polylineOf (DrawPolyline ps) = [ps]"
| "polylineOf _ = []"

definition polylines :: "event list \<Rightarrow> qpointf list list" where
  "polylines evs = concat (map polylineOf evs)"

text \<open>The bins \<open>a..b\<close> of every channel, channel by channel.\<close>

definition binGrid :: "nat \<Rightarrow> int \<Rightarrow> int \<Rightarrow> (nat \<times> int) list" where
  "binGrid numChans a b = concat (map (\<lambda>c. map (Pair c) [a..b]) [0..<numChans])"

definition cacheNotSet :: "header_consts \<Rightarrow> waveform_item \<Rightarrow> bool" where
  "cacheNotSet P s \<longleftrightarrow> firstCalculatedBin s = NOT_SET P \<or> lastCalculatedBin s = NOT_SET P"

definition sameSetup :: "waveform_item \<Rightarrow> waveform_item \<Rightarrow> bool" where
  "sameSetup s t \<longleftrightarrow> sampleBuffer t = sampleBuffer s \<and> binSize t = binSize s
     \<and> firstCalculatedBin t = firstCalculatedBin s \<and> lastCalculatedBin t = lastCalculatedBin s
     \<and> numBins t = numBins s \<and> globalScaleFactor t = globalScaleFactor s
     \<and> detailLevel t = detailLevel s \<and> rect t = rect s"

definition sameZoom :: "waveform_item \<Rightarrow> waveform_item \<Rightarrow> bool" where
  "sameZoom s t \<longleftrightarrow> sampleBuffer t = sampleBuffer s \<and> binSize t = binSize s
     \<and> numBins t = numBins s \<and> globalScaleFactor t = globalScaleFactor s
     \<and> detailLevel t = detailLevel s \<and> rect t = rect s"

text \<open>
  The cached range as the fills need it: not set, or with its first bin in \<open>0..numBins\<close>
  and its last bin in \<open>-1..numBins - 1\<close>; and \<open>numBins\<close> as the last reset computed it.
\<close>

definition binsInv :: "header_consts \<Rightarrow> waveform_item \<Rightarrow> bool" where
  "binsInv P s \<longleftrightarrow>
     numBins s = int_of_qreal (rwidth (rect s) * globalScaleFactor s)
     \<and> (cacheNotSet P s
        \<or> (0 \<le> firstCalculatedBin s \<and> firstCalculatedBin s \<le> numBins s
           \<and> - 1 \<le> lastCalculatedBin s \<and> lastCalculatedBin s \<le> numBins s - 1))"

text \<open>How fine a detail level is.\<close>

fun fineness :: "detail_level \<Rightarrow> nat" where
  "fineness LOW = 0"
| "fineness HIGH = 1"
| "fineness VERY_HIGH = 2"

text \<open>The spec's reading of \<open>numBins\<close>: width times scale factor, rounded to the nearest integer.\<close>

definition numBinsRounded :: "waveform_item \<Rightarrow> int" where
  "numBinsRounded s = round (rwidth (rect s) * globalScaleFactor s)"

subsection \<open>The controller\<close>




text \<open>The left edge of the leftmost selected item is left of the midpoint of the occupant's rect.\<close>

definition crossedMidpoint :: "scene_item \<Rightarrow> scene_item \<Rightarrow> bool" where
  "crossedMidpoint leftmost occupant \<longleftrightarrow>
     fst (scenePos leftmost) < fst (scenePos occupant) + rx (itemRect occupant)
                                + rwidth (itemRect occupant) / 2"

fun changedNotifications :: "item_signal list \<Rightarrow> (int list \<times> int) list" where
  "changedNotifications [] = []"
| "changedNotifications (orderPosHasChanged ps n # sigs) = (ps, n) # changedNotifications sigs"
| "changedNotifications (_ # sigs) = changedNotifications sigs"

fun finishedNotifications :: "item_signal list \<Rightarrow> int list" where
  "finishedNotifications [] = []"
| "finishedNotifications (finishedMoving p # sigs) = p # finishedNotifications sigs"
| "finishedNotifications (_ # sigs) = finishedNotifications sigs"

section \<open>Example inputs\<close>

text \<open>
  Values for the header's constants (a negative sentinel and increasing cutoffs), an item
  as the constructor leaves it (the members it does not initialise are given 0 and LOW;
  the first paint at a scale factor other than the sentinel overwrites them), and items of
  a scene.
\<close>

definition exampleConsts :: header_consts where
  "exampleConsts = \<lparr>NOT_SET = - 1, DETAIL_LEVEL_MAX_CUTOFF = 1 / 20,
                      DETAIL_LEVEL_VERY_HIGH_CUTOFF = 1, DETAIL_LEVEL_HIGH_CUTOFF = 10\<rparr>"

definition newWaveformItem :: "header_consts \<Rightarrow> sample_buffer \<Rightarrow> real \<Rightarrow> real \<Rightarrow> waveform_item" where
  "newWaveformItem P buf width height =
     \<lparr>sampleBuffer = buf, rect = \<lparr>rx = 0, ry = 0, rwidth = width, rheight = height\<rparr>,
      globalScaleFactor = real_of_int (NOT_SET P), stretchRatio = 1,
      firstCalculatedBin = NOT_SET P, lastCalculatedBin = NOT_SET P,
      numBins = 0, binSize = 0, detailLevel = LOW,
      minSampleValues = (\<lambda>chanNum binNum. 0), maxSampleValues = (\<lambda>chanNum binNum. 0)\<rparr>"

definition exampleBuffer4 :: sample_buffer where
  "exampleBuffer4 = \<lparr>channelData = [[1 / 10, - 3 / 10, 1 / 2, - 2 / 10]],
                       findMinMax = (\<lambda>chanNum startFrame numFrames. (0, 0))\<rparr>"

definition exampleBuffer64 :: sample_buffer where
  "exampleBuffer64 = \<lparr>channelData = [replicate 64 0],
                        findMinMax = (\<lambda>chanNum startFrame numFrames. (0, 0))\<rparr>"

definition exampleItemLow :: waveform_item where
  "exampleItemLow = (newWaveformItem exampleConsts exampleBuffer64 4 2)
                      \<lparr>globalScaleFactor := 1, numBins := 4, binSize := 16, detailLevel := LOW\<rparr>"

definition exampleItemA :: scene_item where
  "exampleItemA = \<lparr>itemId = 1, itemType = WaveformItem_Type, orderPos = 2,
                    scenePos = (0, 18), itemRect = \<lparr>rx = 0, ry = 0, rwidth = 10, rheight = 100\<rparr>\<rparr>"

definition exampleItemB :: scene_item where
  "exampleItemB = \<lparr>itemId = 2, itemType = WaveformItem_Type, orderPos = 3,
                    scenePos = (4, 18), itemRect = \<lparr>rx = 0, ry = 0, rwidth = 6, rheight = 100\<rparr>\<rparr>"


definition exampleDragLeft :: mouse_event where
  "exampleDragLeft = \<lparr>modifiers = ControlModifier, button = 1, eventScenePos = (5, 40),
                       screenPos_x = 3, lastScreenPos_x = 5, accepted = True\<rparr>"

definition exampleItemsAt :: "qpointf \<Rightarrow> scene_item list" where
  "exampleItemsAt p = (if fst p < 4 then [exampleItemA]
                       else if fst p < 10 then [exampleItemB, exampleItemA]
                       else [exampleItemB])"

section \<open>Properties of the renderer\<close>

subsection \<open>Filling the cache\<close>

lemma fillBin_fields [simp]:
  "firstCalculatedBin (fst (fillBin c b acc)) = firstCalculatedBin (fst acc)"
  "lastCalculatedBin (fst (fillBin c b acc)) = lastCalculatedBin (fst acc)"
  "numBins (fst (fillBin c b acc)) = numBins (fst acc)"
  "binSize (fst (fillBin c b acc)) = binSize (fst acc)"
  "globalScaleFactor (fst (fillBin c b acc)) = globalScaleFactor (fst acc)"
  "detailLevel (fst (fillBin c b acc)) = detailLevel (fst acc)"
  "sampleBuffer (fst (fillBin c b acc)) = sampleBuffer (fst acc)"
  "rect (fst (fillBin c b acc)) = rect (fst acc)"
  by (simp_all add: fillBin_def Let_def)

lemma fillBin_snd: "snd (fillBin c b acc) = snd acc @ binEvents (fst acc) c b"
  by (simp add: fillBin_def binEvents_def Let_def)

lemma binEvents_cong: "sameSetup s t \<Longrightarrow> binEvents t c b = binEvents s c b"
  by (simp add: binEvents_def sameSetup_def)

lemma fold_fillBin:
  "sameSetup s (fst acc) \<Longrightarrow>
   sameSetup s (fst (fold (fillBin c) bs acc)) \<and>
   snd (fold (fillBin c) bs acc) = snd acc @ concat (map (binEvents s c) bs)"
proof (induction bs arbitrary: acc)
  case Nil
  then show ?case by simp
next
  case (Cons b bs)
  have 1: "sameSetup s (fst (fillBin c b acc))"
    using Cons.prems by (simp add: sameSetup_def)
  show ?case
    using Cons.IH [OF 1] Cons.prems by (simp add: fillBin_snd binEvents_cong)
qed

lemma fold_fold_fillBin:
  "sameSetup s (fst acc) \<Longrightarrow>
   sameSetup s (fst (fold (\<lambda>c. fold (fillBin c) bs) cs acc)) \<and>
   snd (fold (\<lambda>c. fold (fillBin c) bs) cs acc)
     = snd acc @ concat (map (\<lambda>c. concat (map (binEvents s c) bs)) cs)"
proof (induction cs arbitrary: acc)
  case Nil
  then show ?case by simp
next
  case (Cons c cs)
  have 1: "sameSetup s (fst (fold (fillBin c) bs acc))"
    using fold_fillBin [OF Cons.prems] by simp
  show ?case
    using Cons.IH [OF 1] fold_fillBin [OF Cons.prems, of c bs] by simp
qed

lemma findMinMaxSamples_snd: "snd (findMinMaxSamples a b s) = fillEvents s a b"
  using fold_fold_fillBin [of s "(s, [])" "[a..b]" "[0..<getNumChannels (sampleBuffer s)]"]
  by (simp add: findMinMaxSamples_def fillEvents_def sameSetup_def)

lemma findMinMaxSamples_same: "sameSetup s (fst (findMinMaxSamples a b s))"
  using fold_fold_fillBin [of s "(s, [])" "[a..b]" "[0..<getNumChannels (sampleBuffer s)]"]
  by (simp add: findMinMaxSamples_def sameSetup_def)

lemma binsFilled_append [simp]: "binsFilled (xs @ ys) = binsFilled xs @ binsFilled ys"
  by (simp add: binsFilled_def)

lemma minMaxQueries_append [simp]: "minMaxQueries (xs @ ys) = minMaxQueries xs @ minMaxQueries ys"
  by (simp add: minMaxQueries_def)

lemma binsFilled_Nil [simp]: "binsFilled [] = []"
  by (simp add: binsFilled_def)

lemma minMaxQueries_Nil [simp]: "minMaxQueries [] = []"
  by (simp add: minMaxQueries_def)

lemma binsFilled_bins: "binsFilled (concat (map (binEvents s c) bs)) = map (Pair c) bs"
  by (induction bs) (simp_all add: binsFilled_def binEvents_def Let_def)

lemma binsFilled_fillEvents:
  "binsFilled (fillEvents s a b) = binGrid (getNumChannels (sampleBuffer s)) a b"
proof -
  have "binsFilled (concat (map (\<lambda>c. concat (map (binEvents s c) bs)) cs))
          = concat (map (\<lambda>c. map (Pair c) bs) cs)" for bs cs
    by (induction cs) (simp_all add: binsFilled_bins)
  then show ?thesis by (simp add: fillEvents_def binGrid_def)
qed






lemma fillEvents_sameZoom:
  assumes "sameZoom s t"
  shows "fillEvents t a b = fillEvents s a b"
proof -
  have "binEvents t = binEvents s"
    using assms by (intro ext) (simp add: binEvents_def sameZoom_def)
  moreover have "sampleBuffer t = sampleBuffer s"
    using assms by (simp add: sameZoom_def)
  ultimately show ?thesis by (simp add: fillEvents_def)
qed

lemma sameZoom_refl [simp]: "sameZoom s s"
  by (simp add: sameZoom_def)

lemma sameZoom_trans: "sameZoom s t \<Longrightarrow> sameZoom t u \<Longrightarrow> sameZoom s u"
  by (simp add: sameZoom_def)

lemma fillWhenNotSet_result:
  "sameZoom s (fst (fillWhenNotSet P fv lv s))"
  "snd (fillWhenNotSet P fv lv s) = (if cacheNotSet P s then fillEvents s fv lv else [])"
  "firstCalculatedBin (fst (fillWhenNotSet P fv lv s))
     = (if cacheNotSet P s then fv else firstCalculatedBin s)"
  "lastCalculatedBin (fst (fillWhenNotSet P fv lv s))
     = (if cacheNotSet P s then lv else lastCalculatedBin s)"
  using findMinMaxSamples_same [of s fv lv]
  by (simp_all add: fillWhenNotSet_def cacheNotSet_def Let_def findMinMaxSamples_snd
      sameSetup_def sameZoom_def)

lemma fillBefore_result:
  "sameZoom s (fst (fillBefore fv s))"
  "snd (fillBefore fv s)
     = (if fv < firstCalculatedBin s then fillEvents s fv (firstCalculatedBin s - 1) else [])"
  "firstCalculatedBin (fst (fillBefore fv s)) = min fv (firstCalculatedBin s)"
  "lastCalculatedBin (fst (fillBefore fv s)) = lastCalculatedBin s"
  using findMinMaxSamples_same [of s fv "firstCalculatedBin s - 1"]
  by (simp_all add: fillBefore_def Let_def findMinMaxSamples_snd sameSetup_def sameZoom_def)

lemma fillAfter_result:
  "sameZoom s (fst (fillAfter lv s))"
  "snd (fillAfter lv s)
     = (if lv > lastCalculatedBin s then fillEvents s (lastCalculatedBin s + 1) lv else [])"
  "firstCalculatedBin (fst (fillAfter lv s)) = firstCalculatedBin s"
  "lastCalculatedBin (fst (fillAfter lv s)) = max lv (lastCalculatedBin s)"
  using findMinMaxSamples_same [of s "lastCalculatedBin s + 1" lv]
  by (simp_all add: fillAfter_def Let_def findMinMaxSamples_snd sameSetup_def sameZoom_def)

lemma cacheVisibleBins_sameZoom: "sameZoom s (fst (cacheVisibleBins P fv lv s))"
  unfolding cacheVisibleBins_def Let_def fst_conv
  by (blast intro: sameZoom_trans fillWhenNotSet_result(1) fillBefore_result(1)
      fillAfter_result(1))

lemma cacheVisibleBins_notSet:
  assumes "cacheNotSet P s"
  shows "snd (cacheVisibleBins P fv lv s) = fillEvents s fv lv"
    and "firstCalculatedBin (fst (cacheVisibleBins P fv lv s)) = fv"
    and "lastCalculatedBin (fst (cacheVisibleBins P fv lv s)) = lv"
  using assms
  by (simp_all add: cacheVisibleBins_def Let_def fillWhenNotSet_result fillBefore_result
      fillAfter_result)

lemma cacheVisibleBins_set:
  assumes "\<not> cacheNotSet P s"
  shows "snd (cacheVisibleBins P fv lv s) =
           (if fv < firstCalculatedBin s then fillEvents s fv (firstCalculatedBin s - 1) else [])
           @ (if lv > lastCalculatedBin s then fillEvents s (lastCalculatedBin s + 1) lv else [])"
    and "firstCalculatedBin (fst (cacheVisibleBins P fv lv s)) = min fv (firstCalculatedBin s)"
    and "lastCalculatedBin (fst (cacheVisibleBins P fv lv s)) = max lv (lastCalculatedBin s)"
proof -
  have r1: "fillWhenNotSet P fv lv s = (s, [])"
    using assms by (simp add: fillWhenNotSet_def cacheNotSet_def)
  have fe: "fillEvents (fst (fillBefore fv s)) a b = fillEvents s a b" for a b
    by (rule fillEvents_sameZoom) (rule fillBefore_result)
  show "snd (cacheVisibleBins P fv lv s) =
           (if fv < firstCalculatedBin s then fillEvents s fv (firstCalculatedBin s - 1) else [])
           @ (if lv > lastCalculatedBin s then fillEvents s (lastCalculatedBin s + 1) lv else [])"
    by (simp add: cacheVisibleBins_def r1 Let_def fillBefore_result fillAfter_result fe)
  show "firstCalculatedBin (fst (cacheVisibleBins P fv lv s)) = min fv (firstCalculatedBin s)"
    by (simp add: cacheVisibleBins_def r1 Let_def fillBefore_result fillAfter_result)
  show "lastCalculatedBin (fst (cacheVisibleBins P fv lv s)) = max lv (lastCalculatedBin s)"
    by (simp add: cacheVisibleBins_def r1 Let_def fillBefore_result fillAfter_result)
qed

lemma no_fill_events:
  assumes "\<And>e. e \<in> set evs \<Longrightarrow> \<not> isFindMinMax e \<and> filledBin e = []"
  shows "minMaxQueries evs = [] \<and> binsFilled evs = []"
  using assms by (induction evs) (simp_all add: minMaxQueries_def binsFilled_def)

lemma drawBins_no_fill:
  assumes "drawBins s fv lv = Inr evs"
  shows "minMaxQueries evs = [] \<and> binsFilled evs = []"
proof (rule no_fill_events)
  fix e assume "e \<in> set evs"
  with assms show "\<not> isFindMinMax e \<and> filledBin e = []"
    by (auto simp: drawBins_def Let_def lowBin_def split: if_splits)
qed

lemma paintBackground_no_fill:
  "minMaxQueries (paintBackground s) = [] \<and> binsFilled (paintBackground s) = []"
  by (rule no_fill_events) (auto simp: paintBackground_def Let_def split: if_splits)

lemma paint_same_zoom_bins:
  assumes "globalScaleFactor s = m11" and "detailLevel s \<noteq> VERY_HIGH"
      and "paint P s m11 L R sel = Inr (s', ev)"
  shows "s' = fst (cacheVisibleBins P (firstVisibleBin s L) (lastVisibleBin s R) s)"
    and "minMaxQueries ev
           = minMaxQueries (snd (cacheVisibleBins P (firstVisibleBin s L) (lastVisibleBin s R) s))"
    and "binsFilled ev
           = binsFilled (snd (cacheVisibleBins P (firstVisibleBin s L) (lastVisibleBin s R) s))"
proof -
  let ?r = "cacheVisibleBins P (firstVisibleBin s L) (lastVisibleBin s R) s"
  from assms obtain evs where
    d: "drawBins (fst ?r) (firstVisibleBin s L) (lastVisibleBin s R) = Inr evs" and
    s': "s' = fst ?r" and
    ev: "ev = paintBackground s @ snd ?r @ evs @ [Restore]
               @ (if sel then [SetBrush HighlightBrush, DrawRect (rect s)] else [])"
    by (auto simp: paint_def paintRescale_def paintWaveform_def drawWaveformFromSampleBins_def
        paintBackground_def Let_def split: sum.splits if_splits)
  show "s' = fst ?r" by (rule s')
  have tail: "minMaxQueries ([Restore]
               @ (if sel then [SetBrush HighlightBrush, DrawRect (rect s)] else [])) = []
            \<and> binsFilled ([Restore]
               @ (if sel then [SetBrush HighlightBrush, DrawRect (rect s)] else [])) = []"
    by (rule no_fill_events) (auto split: if_splits)
  show "minMaxQueries ev = minMaxQueries (snd ?r)"
    using paintBackground_no_fill [of s] drawBins_no_fill [OF d] tail
    unfolding ev minMaxQueries_append by simp
  show "binsFilled ev = binsFilled (snd ?r)"
    using paintBackground_no_fill [of s] drawBins_no_fill [OF d] tail
    unfolding ev binsFilled_append by simp
qed


lemma visibleBin_sameZoom:
  "sameZoom s t \<Longrightarrow> firstVisibleBin t L = firstVisibleBin s L"
  "sameZoom s t \<Longrightarrow> lastVisibleBin t R = lastVisibleBin s R"
  by (simp_all add: sameZoom_def firstVisibleBin_def lastVisibleBin_def)





subsection \<open>Resetting the bins\<close>

lemma resetSampleBins_result:
  assumes "rwidth (rect s) * globalScaleFactor s \<noteq> 0"
  shows "\<exists>s' ev. resetSampleBins P s = Inr (s', ev)
           \<and> numBins s' = int_of_qreal (rwidth (rect s) * globalScaleFactor s)
           \<and> binSize s' = real_of_int (getNumFrames (sampleBuffer s))
                            / (rwidth (rect s) * globalScaleFactor s)
           \<and> detailLevel s' = detailLevelFor P (binSize s')
           \<and> firstCalculatedBin s' = NOT_SET P \<and> lastCalculatedBin s' = NOT_SET P
           \<and> globalScaleFactor s' = globalScaleFactor s \<and> rect s' = rect s
           \<and> sampleBuffer s' = sampleBuffer s"
  using assms by (simp add: resetSampleBins_def Let_def detailLevelFor_def)

lemma int_of_qreal_truncates:
  "\<bar>real_of_int (int_of_qreal x)\<bar> \<le> \<bar>x\<bar> \<and> \<bar>x\<bar> < \<bar>real_of_int (int_of_qreal x)\<bar> + 1
   \<and> 0 \<le> real_of_int (int_of_qreal x) * x"
proof (cases "0 \<le> x")
  case True
  then have "0 \<le> \<lfloor>x\<rfloor>" by simp
  then show ?thesis using True by (simp add: int_of_qreal_def; linarith)
next
  case False
  then have c: "\<lceil>x\<rceil> \<le> 0" by (simp add: ceiling_le_iff)
  have "real_of_int \<lceil>x\<rceil> * x \<ge> 0"
    using c False by (simp add: mult_nonpos_nonpos)
  then show ?thesis using False c by (simp add: int_of_qreal_def; linarith)
qed

text \<open>
  Claim C7 as stated (\<open>numBins\<close> is the product rounded) fails: at width 3 and scale
  factor 1/2 the product is 3/2, the reset stores 1 and rounding gives 2.
\<close>

theorem reset_numBins_counterexample:
  "map_sum id (\<lambda>r. numBins (fst r))
      (resetSampleBins exampleConsts
         ((newWaveformItem exampleConsts exampleBuffer64 3 2)\<lparr>globalScaleFactor := 1 / 2\<rparr>))
     = Inr 1
   \<and> numBinsRounded ((newWaveformItem exampleConsts exampleBuffer64 3 2)\<lparr>globalScaleFactor := 1 / 2\<rparr>)
     = 2"
  by (simp add: resetSampleBins_def newWaveformItem_def exampleConsts_def exampleBuffer64_def
      getNumFrames_def getNumChannels_def int_of_qreal_def numBinsRounded_def Let_def round_def)

text \<open>
  Claim C7, as the code has it. A reset with a non-zero product of width and scale factor
  returns; \<open>numBins\<close> is that product with its fraction discarded (truncated towards
  zero: its magnitude is the largest integer not above the product's magnitude, with the
  product's sign), and \<open>binSize\<close> is the buffer's frame count divided by the product.
\<close>

theorem reset_numBins_binSize:
  assumes "rwidth (rect s) * globalScaleFactor s \<noteq> 0"
  shows "\<exists>s' ev. resetSampleBins P s = Inr (s', ev)
           \<and> numBins s' = int_of_qreal (rwidth (rect s) * globalScaleFactor s)
           \<and> \<bar>real_of_int (numBins s')\<bar> \<le> \<bar>rwidth (rect s) * globalScaleFactor s\<bar>
           \<and> \<bar>rwidth (rect s) * globalScaleFactor s\<bar> < \<bar>real_of_int (numBins s')\<bar> + 1
           \<and> 0 \<le> real_of_int (numBins s') * (rwidth (rect s) * globalScaleFactor s)
           \<and> binSize s' = real_of_int (getNumFrames (sampleBuffer s))
                            / (rwidth (rect s) * globalScaleFactor s)"
  using resetSampleBins_result [OF assms, of P]
        int_of_qreal_truncates [of "rwidth (rect s) * globalScaleFactor s"]
  by auto

text \<open>The theorem at width 3 and scale factor 1/2, with 64 frames.\<close>

theorem reset_numBins_binSize_witness:
  "\<exists>s' ev. resetSampleBins exampleConsts
              ((newWaveformItem exampleConsts exampleBuffer64 3 2)\<lparr>globalScaleFactor := 1 / 2\<rparr>)
            = Inr (s', ev)
          \<and> numBins s' = 1 \<and> binSize s' = 128 / 3"
  using reset_numBins_binSize [of "(newWaveformItem exampleConsts exampleBuffer64 3 2)
          \<lparr>globalScaleFactor := 1 / 2\<rparr>" exampleConsts]
  by (auto simp add: newWaveformItem_def exampleBuffer64_def getNumFrames_def int_of_qreal_def)

text \<open>
  Claim C8. After a reset the detail level is \<open>detailLevelFor\<close> of the bin size: VERY_HIGH
  up to the very-high cutoff, else HIGH up to the high cutoff, else LOW. That function is
  monotonic: a smaller bin size never gets a coarser level.
\<close>

theorem detail_level_monotone:
  "(resetSampleBins P s = Inr (s', ev) \<longrightarrow> detailLevel s' = detailLevelFor P (binSize s'))
   \<and> (b1 \<le> b2 \<longrightarrow> fineness (detailLevelFor P b2) \<le> fineness (detailLevelFor P b1))"
proof -
  have "detailLevel s' = detailLevelFor P (binSize s')" if "resetSampleBins P s = Inr (s', ev)"
    using that by (auto simp: resetSampleBins_def Let_def detailLevelFor_def split: if_splits)
  moreover have "fineness (detailLevelFor P b2) \<le> fineness (detailLevelFor P b1)" if "b1 \<le> b2"
    using that by (simp add: detailLevelFor_def)
  ultimately show ?thesis by blast
qed

text \<open>The theorem at a reset that yields bin size 16, and at the bin sizes 1/2 and 5.\<close>

theorem detail_level_monotone_witness:
  "\<exists>s' ev. resetSampleBins exampleConsts
              ((newWaveformItem exampleConsts exampleBuffer64 4 2)\<lparr>globalScaleFactor := 1\<rparr>)
            = Inr (s', ev)
          \<and> binSize s' = 16 \<and> detailLevel s' = LOW
          \<and> detailLevelFor exampleConsts (1 / 2) = VERY_HIGH
          \<and> detailLevelFor exampleConsts 5 = HIGH
          \<and> fineness (detailLevelFor exampleConsts 5) \<le> fineness (detailLevelFor exampleConsts (1 / 2))"
proof -
  let ?s = "(newWaveformItem exampleConsts exampleBuffer64 4 2)\<lparr>globalScaleFactor := 1\<rparr>"
  have "rwidth (rect ?s) * globalScaleFactor ?s \<noteq> 0"
    by (simp add: newWaveformItem_def)
  from resetSampleBins_result [OF this, of exampleConsts]
  obtain s' ev where r: "resetSampleBins exampleConsts ?s = Inr (s', ev)"
    and b: "binSize s' = 16"
    by (auto simp: newWaveformItem_def exampleBuffer64_def getNumFrames_def)
  from detail_level_monotone [of exampleConsts ?s s' ev "1 / 2" 5] r b
  have "detailLevel s' = LOW
        \<and> fineness (detailLevelFor exampleConsts 5) \<le> fineness (detailLevelFor exampleConsts (1 / 2))"
    by (simp add: detailLevelFor_def exampleConsts_def)
  with r b show ?thesis
    by (simp add: detailLevelFor_def exampleConsts_def)
qed


subsection \<open>Drawing from samples\<close>

lemma map_add_upto: "map (\<lambda>count. a + count) [i..j] = [a + i..a + j]"
proof (induction i j rule: upto.induct)
  case (1 i j)
  show ?case
  proof (cases "i \<le> j")
    case True
    then have "[i..j] = i # [i + 1..j]" and "[a + i..a + j] = (a + i) # [a + i + 1..a + j]"
      by (simp_all add: upto_rec1)
    then show ?thesis using 1 True by (simp add: add.assoc)
  next
    case False
    then show ?thesis by simp
  qed
qed

lemma samplePoints_in_range:
  assumes "chanNum < length (channelData b)"
      and "\<forall>f \<in> set frames. 0 \<le> f \<and> f < int (length (channelData b ! chanNum))"
  shows "samplePoints b chanNum d frames
           = Inr (map (\<lambda>f. (real_of_int f * d, - (channelData b ! chanNum ! nat f))) frames)"
  using assms by (induction frames) (simp_all add: readSample_def)

lemma samplePolylines_in_range:
  assumes "\<forall>c \<in> set chans. c < length (channelData b)
              \<and> (\<forall>f \<in> set frames. 0 \<le> f \<and> f < int (length (channelData b ! c)))"
  shows "samplePolylines b d frames numChans chans
           = Inr (concat (map (\<lambda>c.
                    [DrawPolyline (map (\<lambda>f. (real_of_int f * d, - (channelData b ! c ! nat f)))
                                       frames),
                     Translate 0 (real numChans)]) chans))"
  using assms by (induction chans) (simp_all add: samplePoints_in_range)

lemma visibleFrames_bounds:
  assumes "0 < getNumFrames (sampleBuffer s)" and "0 < rwidth (rect s)"
      and "0 \<le> L" and "L \<le> R" and "L \<le> rwidth (rect s)"
  shows "0 \<le> firstVisibleFrame s L"
    and "lastVisibleFrame s R \<le> getNumFrames (sampleBuffer s) - 1"
    and "firstVisibleFrame s L \<le> lastVisibleFrame s R + 1"
proof -
  define n where "n = getNumFrames (sampleBuffer s)"
  define d where "d = rwidth (rect s) / real_of_int n"
  have n: "0 < real_of_int n" using assms(1) by (simp add: n_def)
  have d: "0 < d" unfolding d_def using assms(2) n by (rule divide_pos_pos)
  have w: "rwidth (rect s) = real_of_int n * d" using n by (simp add: d_def)
  have f: "firstVisibleFrame s L = \<lfloor>L / d\<rfloor>"
    by (simp add: firstVisibleFrame_def d_def n_def)
  have l: "lastVisibleFrame s R = min \<lceil>R / d\<rceil> (n - 1)"
    by (simp add: lastVisibleFrame_def d_def n_def)
  have nn: "0 \<le> L / d"
    using assms(3) d by (rule divide_nonneg_pos)
  show "0 \<le> firstVisibleFrame s L"
    unfolding f zero_le_floor by (rule nn)
  show "lastVisibleFrame s R \<le> getNumFrames (sampleBuffer s) - 1"
    by (simp add: l n_def)
  have "L \<le> real_of_int n * d" using assms(5) w by simp
  then have "L / d \<le> real_of_int n"
    using d by (simp add: pos_divide_le_eq)
  then have 1: "\<lfloor>L / d\<rfloor> \<le> n" by (simp add: floor_le_iff)
  have "L / d \<le> R / d" using assms(4) d by (simp add: divide_right_mono)
  then have 2: "\<lfloor>L / d\<rfloor> \<le> \<lceil>R / d\<rceil>"
    by (meson ceiling_mono floor_le_ceiling order_trans)
  show "firstVisibleFrame s L \<le> lastVisibleFrame s R + 1"
    using 1 2 by (simp add: f l min_def)
qed

lemma visibleFrames_iff:
  assumes "0 < getNumFrames (sampleBuffer s)" and "0 < rwidth (rect s)"
  shows "f \<in> set [firstVisibleFrame s L..lastVisibleFrame s R] \<longleftrightarrow>
           L < real_of_int (f + 1) * (rwidth (rect s) / real_of_int (getNumFrames (sampleBuffer s)))
         \<and> real_of_int (f - 1) * (rwidth (rect s) / real_of_int (getNumFrames (sampleBuffer s))) < R
         \<and> f \<le> getNumFrames (sampleBuffer s) - 1"
proof -
  define n where "n = getNumFrames (sampleBuffer s)"
  define d where "d = rwidth (rect s) / real_of_int n"
  have n: "0 < real_of_int n" using assms(1) by (simp add: n_def)
  have d: "0 < d" unfolding d_def using assms(2) n by (rule divide_pos_pos)
  have f: "firstVisibleFrame s L = \<lfloor>L / d\<rfloor>"
    by (simp add: firstVisibleFrame_def d_def n_def)
  have l: "lastVisibleFrame s R = min \<lceil>R / d\<rceil> (n - 1)"
    by (simp add: lastVisibleFrame_def d_def n_def)
  have 1: "\<lfloor>L / d\<rfloor> \<le> f \<longleftrightarrow> L < real_of_int (f + 1) * d"
    using d by (simp add: floor_le_iff pos_divide_less_eq)
  have 2: "f \<le> \<lceil>R / d\<rceil> \<longleftrightarrow> real_of_int (f - 1) * d < R"
    using d by (simp add: le_ceiling_iff pos_less_divide_eq)
  show ?thesis
    unfolding d_def [symmetric] n_def [symmetric] f l using 1 2 by auto
qed

lemma samplePoints_Inr:
  "samplePoints b chanNum d frames = Inr ps \<Longrightarrow>
     ps = map (\<lambda>f. (real_of_int f * d, - (channelData b ! chanNum ! nat f))) frames"
  by (induction frames arbitrary: ps)
     (auto simp: readSample_def split: sum.splits if_splits)

lemma polylines_append [simp]: "polylines (xs @ ys) = polylines xs @ polylines ys"
  by (simp add: polylines_def)

lemma polylines_Cons [simp]: "polylines (e # evs) = polylineOf e @ polylines evs"
  by (simp add: polylines_def)

lemma polylines_Nil [simp]: "polylines [] = []"
  by (simp add: polylines_def)

lemma samplePolylines_Inr:
  "samplePolylines b d frames numChans chans = Inr evs \<Longrightarrow>
     polylines evs
       = map (\<lambda>c. map (\<lambda>f. (real_of_int f * d, - (channelData b ! c ! nat f))) frames) chans"
  by (induction chans arbitrary: evs)
     (auto split: sum.splits dest: samplePoints_Inr)

lemma drawWaveformFromSamples_Inr:
  assumes "drawWaveformFromSamples s L R = Inr evs"
  shows "polylines evs
           = map (\<lambda>c. map (\<lambda>f. (real_of_int f
                                    * (rwidth (rect s) / real_of_int (getNumFrames (sampleBuffer s))),
                                  - (channelData (sampleBuffer s) ! c ! nat f)))
                           [firstVisibleFrame s L..lastVisibleFrame s R])
                 [0..<getNumChannels (sampleBuffer s)]"
proof -
  let ?fvf = "firstVisibleFrame s L" and ?lvf = "lastVisibleFrame s R"
  have fr: "map (\<lambda>count. ?fvf + count) [0..?lvf - ?fvf + 1 - 1] = [?fvf..?lvf]"
    by (simp add: map_add_upto)
  from assms have "samplePolylines (sampleBuffer s)
        (rwidth (rect s) / real_of_int (getNumFrames (sampleBuffer s)))
        (map (\<lambda>count. ?fvf + count) [0..?lvf - ?fvf + 1 - 1])
        (getNumChannels (sampleBuffer s)) [0..<getNumChannels (sampleBuffer s)] = Inr evs"
    by (simp add: drawWaveformFromSamples_def Let_def split: if_splits)
  then show ?thesis
    unfolding fr by (rule samplePolylines_Inr)
qed

lemma drawWaveformFromSamples_returns:
  assumes wf: "\<forall>c \<in> set (channelData (sampleBuffer s)).
                 int (length c) = getNumFrames (sampleBuffer s)"
      and b: "0 < getNumFrames (sampleBuffer s)" "0 < rwidth (rect s)"
             "0 \<le> L" "L \<le> R" "L \<le> rwidth (rect s)"
  shows "\<exists>evs. drawWaveformFromSamples s L R = Inr evs"
proof -
  let ?fvf = "firstVisibleFrame s L" and ?lvf = "lastVisibleFrame s R"
  note vb = visibleFrames_bounds [OF b]
  have fr: "map ((+) ?fvf) [0..?lvf - ?fvf] = [?fvf..?lvf]"
    using map_add_upto [of ?fvf 0 "?lvf - ?fvf"] by simp
  have "\<forall>c \<in> set [0..<getNumChannels (sampleBuffer s)].
          c < length (channelData (sampleBuffer s))
          \<and> (\<forall>f \<in> set [?fvf..?lvf].
                0 \<le> f \<and> f < int (length (channelData (sampleBuffer s) ! c)))"
    using wf vb by (auto simp: getNumChannels_def)
  from samplePolylines_in_range [OF this]
  show ?thesis
    using b vb by (simp add: drawWaveformFromSamples_def Let_def fr)
qed

lemma concat_map_Nil: "(\<And>e. e \<in> set evs \<Longrightarrow> f e = []) \<Longrightarrow> concat (map f evs) = []"
  by (induction evs) simp_all

lemma in_resizeArrays:
  "e \<in> set (resizeArrays n k) \<longleftrightarrow> (\<exists>c < n. e = ArrayResize MinValues c k \<or> e = ArrayResize MaxValues c k)"
  by (auto simp: resizeArrays_def)

lemma paintBackground_plain:
  "polylines (paintBackground s) = []" "binsAccessed (paintBackground s) = []"
  "resizes (paintBackground s) = []"
  unfolding polylines_def binsAccessed_def resizes_def
  by (rule concat_map_Nil, auto simp: paintBackground_def Let_def split: if_splits)+

lemma paintTail_plain:
  "polylines ([Restore] @ (if sel then [SetBrush HighlightBrush, DrawRect r] else [])) = []"
  "binsAccessed ([Restore] @ (if sel then [SetBrush HighlightBrush, DrawRect r] else [])) = []"
  "resizes ([Restore] @ (if sel then [SetBrush HighlightBrush, DrawRect r] else [])) = []"
  "minMaxQueries ([Restore] @ (if sel then [SetBrush HighlightBrush, DrawRect r] else [])) = []"
  "binsFilled ([Restore] @ (if sel then [SetBrush HighlightBrush, DrawRect r] else [])) = []"
  by (auto simp: polylines_def binsAccessed_def resizes_def minMaxQueries_def binsFilled_def)

lemma signal_resize_events_plain:
  assumes "\<And>x. x \<in> set ev \<Longrightarrow> (\<exists>sg. x = Emit sg) \<or> (\<exists>a c k. x = ArrayResize a c k)"
  shows "polylines ev = [] \<and> binsAccessed ev = [] \<and> binsFilled ev = [] \<and> minMaxQueries ev = []"
  using assms
proof (induction ev)
  case Nil
  then show ?case
    by (simp add: polylines_def binsAccessed_def binsFilled_def minMaxQueries_def)
next
  case (Cons x ev)
  have "(\<exists>sg. x = Emit sg) \<or> (\<exists>a c k. x = ArrayResize a c k)"
    using Cons.prems by simp
  moreover have "polylines ev = [] \<and> binsAccessed ev = [] \<and> binsFilled ev = []
                   \<and> minMaxQueries ev = []"
    using Cons by simp
  ultimately show ?case
    by (auto simp: polylines_def binsAccessed_def binsFilled_def minMaxQueries_def)
qed

lemma resetSampleBins_plain:
  assumes "resetSampleBins P s = Inr (s', ev)"
  shows "polylines ev = []" "binsAccessed ev = []" "minMaxQueries ev = []" "binsFilled ev = []"
proof -
  have e: "x \<in> set ev \<Longrightarrow> (\<exists>sg. x = Emit sg) \<or> (\<exists>a c k. x = ArrayResize a c k)" for x
    using assms
    by (auto simp: resetSampleBins_def Let_def in_resizeArrays split: if_splits)
  from signal_resize_events_plain [OF e]
  show "polylines ev = []" "binsAccessed ev = []" "minMaxQueries ev = []" "binsFilled ev = []"
    by simp_all
qed

lemma paintRescale_Inr:
  assumes "paintRescale P s m11 = Inr (s1, ev1)"
  shows "globalScaleFactor s1 = m11" and "rect s1 = rect s"
    and "sampleBuffer s1 = sampleBuffer s"
    and "polylines ev1 = []" and "binsAccessed ev1 = []"
    and "minMaxQueries ev1 = []" and "binsFilled ev1 = []"
    and "globalScaleFactor s = m11 \<Longrightarrow> s1 = s \<and> ev1 = []"
    and "globalScaleFactor s \<noteq> m11 \<Longrightarrow>
           resetSampleBins P (s\<lparr>globalScaleFactor := m11\<rparr>) = Inr (s1, ev1)"
proof -
  show "globalScaleFactor s1 = m11" "rect s1 = rect s" "sampleBuffer s1 = sampleBuffer s"
    using assms
    by (auto simp: paintRescale_def resetSampleBins_def Let_def split: if_splits)
  show "polylines ev1 = []" "binsAccessed ev1 = []" "minMaxQueries ev1 = []"
       "binsFilled ev1 = []"
    using assms resetSampleBins_plain [of P "s\<lparr>globalScaleFactor := m11\<rparr>" s1 ev1]
    by (auto simp: paintRescale_def polylines_def binsAccessed_def minMaxQueries_def
        binsFilled_def split: if_splits)
  show "globalScaleFactor s = m11 \<Longrightarrow> s1 = s \<and> ev1 = []"
    using assms by (simp add: paintRescale_def)
  show "globalScaleFactor s \<noteq> m11 \<Longrightarrow>
           resetSampleBins P (s\<lparr>globalScaleFactor := m11\<rparr>) = Inr (s1, ev1)"
    using assms by (simp add: paintRescale_def)
qed

lemma paint_Inr:
  assumes "paint P s m11 L R sel = Inr (s', ev)"
  obtains s1 ev1 evs where "paintRescale P s m11 = Inr (s1, ev1)"
    and "paintWaveform P s1 L R = Inr (s', evs)"
    and "ev = ev1 @ paintBackground s1 @ evs @ [Restore]
               @ (if sel then [SetBrush HighlightBrush, DrawRect (rect s1)] else [])"
    and "0 < getNumChannels (sampleBuffer s)"
  using assms
  by (auto simp: paint_def split: sum.splits if_splits)

lemma paintWaveform_very_high:
  assumes "paintWaveform P s1 L R = Inr (s', evs)" and "detailLevel s' = VERY_HIGH"
  shows "s' = s1 \<and> drawWaveformFromSamples s1 L R = Inr evs"
proof (cases "detailLevel s1 = VERY_HIGH")
  case True
  with assms(1) show ?thesis
    by (auto simp: paintWaveform_def split: sum.splits)
next
  case False
  with assms(1) have "s' = fst (cacheVisibleBins P (firstVisibleBin s1 L) (lastVisibleBin s1 R) s1)"
    by (auto simp: paintWaveform_def drawWaveformFromSampleBins_def Let_def split: sum.splits)
  then have "detailLevel s' = detailLevel s1"
    using cacheVisibleBins_sameZoom [of s1 P "firstVisibleBin s1 L" "lastVisibleBin s1 R"]
    by (simp add: sameZoom_def)
  with False assms(2) show ?thesis by simp
qed

text \<open>
  Claim C9. When a paint returns at VERY_HIGH detail, its polylines are one per channel,
  in channel order; the points of a channel's polyline are, for the frames from the first
  to the last visible frame in order, the frame number times width / frameCount as x and
  the negated sample value as y. With a positive width and frame count the visible frames
  are the frames \<open>f\<close> below the frame count with \<open>L < (f + 1) * d\<close> and
  \<open>(f - 1) * d < R\<close>, for \<open>d = width / frameCount\<close> and the exposed rectangle from
  \<open>L\<close> to \<open>R\<close>. The paint returns when every channel has the buffer's frame count of
  samples, there is a channel, and the exposed rectangle starts inside the item
  (\<open>0 \<le> L \<le> R\<close>, \<open>L \<le> width\<close>).
\<close>

theorem very_high_polyline:
  "(paint P s m11 L R sel = Inr (s', ev) \<and> detailLevel s' = VERY_HIGH \<longrightarrow>
      polylines ev
        = map (\<lambda>c. map (\<lambda>f. (real_of_int f
                                 * (rwidth (rect s) / real_of_int (getNumFrames (sampleBuffer s))),
                               - (channelData (sampleBuffer s) ! c ! nat f)))
                        [firstVisibleFrame s L..lastVisibleFrame s R])
              [0..<getNumChannels (sampleBuffer s)])
   \<and> (0 < getNumFrames (sampleBuffer s) \<and> 0 < rwidth (rect s) \<longrightarrow>
        (\<forall>f. f \<in> set [firstVisibleFrame s L..lastVisibleFrame s R] \<longleftrightarrow>
           L < real_of_int (f + 1) * (rwidth (rect s) / real_of_int (getNumFrames (sampleBuffer s)))
         \<and> real_of_int (f - 1) * (rwidth (rect s) / real_of_int (getNumFrames (sampleBuffer s))) < R
         \<and> f \<le> getNumFrames (sampleBuffer s) - 1))
   \<and> ((\<forall>c \<in> set (channelData (sampleBuffer s)). int (length c) = getNumFrames (sampleBuffer s))
       \<and> 0 < getNumChannels (sampleBuffer s) \<and> 0 < getNumFrames (sampleBuffer s)
       \<and> 0 < rwidth (rect s) \<and> 0 \<le> L \<and> L \<le> R \<and> L \<le> rwidth (rect s)
       \<and> paintRescale P s m11 = Inr (s1, ev1) \<and> detailLevel s1 = VERY_HIGH \<longrightarrow>
        (\<exists>ev. paint P s m11 L R sel = Inr (s1, ev)))"
proof (intro conjI impI)
  assume a: "paint P s m11 L R sel = Inr (s', ev) \<and> detailLevel s' = VERY_HIGH"
  then obtain t1 e1 evs where r: "paintRescale P s m11 = Inr (t1, e1)"
    and w: "paintWaveform P t1 L R = Inr (s', evs)"
    and ev: "ev = e1 @ paintBackground t1 @ evs @ [Restore]
               @ (if sel then [SetBrush HighlightBrush, DrawRect (rect t1)] else [])"
    by (auto elim: paint_Inr)
  from paintWaveform_very_high [OF w] a
  have d: "drawWaveformFromSamples t1 L R = Inr evs" by simp
  have same: "rect t1 = rect s" "sampleBuffer t1 = sampleBuffer s"
    using paintRescale_Inr(2,3) [OF r] by simp_all
  have "polylines ev = polylines evs"
    unfolding ev polylines_append
    by (simp only: paintRescale_Inr(4) [OF r] paintBackground_plain
        paintTail_plain [unfolded polylines_append] append_Nil append_Nil2)
  also have "\<dots> = map (\<lambda>c. map (\<lambda>f. (real_of_int f
                                 * (rwidth (rect s) / real_of_int (getNumFrames (sampleBuffer s))),
                               - (channelData (sampleBuffer s) ! c ! nat f)))
                        [firstVisibleFrame s L..lastVisibleFrame s R])
              [0..<getNumChannels (sampleBuffer s)]"
    using drawWaveformFromSamples_Inr [OF d]
    by (simp add: same firstVisibleFrame_def lastVisibleFrame_def)
  finally show "polylines ev = map (\<lambda>c. map (\<lambda>f. (real_of_int f
                                 * (rwidth (rect s) / real_of_int (getNumFrames (sampleBuffer s))),
                               - (channelData (sampleBuffer s) ! c ! nat f)))
                        [firstVisibleFrame s L..lastVisibleFrame s R])
              [0..<getNumChannels (sampleBuffer s)]" .
next
  assume "0 < getNumFrames (sampleBuffer s) \<and> 0 < rwidth (rect s)"
  then show "\<forall>f. f \<in> set [firstVisibleFrame s L..lastVisibleFrame s R] \<longleftrightarrow>
           L < real_of_int (f + 1) * (rwidth (rect s) / real_of_int (getNumFrames (sampleBuffer s)))
         \<and> real_of_int (f - 1) * (rwidth (rect s) / real_of_int (getNumFrames (sampleBuffer s))) < R
         \<and> f \<le> getNumFrames (sampleBuffer s) - 1"
    using visibleFrames_iff [of s _ L R] by blast
next
  assume a: "(\<forall>c \<in> set (channelData (sampleBuffer s)). int (length c) = getNumFrames (sampleBuffer s))
       \<and> 0 < getNumChannels (sampleBuffer s) \<and> 0 < getNumFrames (sampleBuffer s)
       \<and> 0 < rwidth (rect s) \<and> 0 \<le> L \<and> L \<le> R \<and> L \<le> rwidth (rect s)
       \<and> paintRescale P s m11 = Inr (s1, ev1) \<and> detailLevel s1 = VERY_HIGH"
  then have r: "paintRescale P s m11 = Inr (s1, ev1)" by simp
  have same: "rect s1 = rect s" "sampleBuffer s1 = sampleBuffer s"
    using paintRescale_Inr(2,3) [OF r] by simp_all
  obtain evs where "drawWaveformFromSamples s1 L R = Inr evs"
    using drawWaveformFromSamples_returns [of s1 L R] a same by auto
  then show "\<exists>ev. paint P s m11 L R sel = Inr (s1, ev)"
    using a by (simp add: paint_def paintWaveform_def)
qed

text \<open>
  The theorem at the sample frames 0.1, -0.3, 0.5, -0.2 on one channel, the whole item
  (width 4) exposed at scale factor 1: one polyline of 4 points with the y-values
  -0.1, 0.3, -0.5, 0.2.
\<close>

theorem very_high_polyline_witness:
  "\<exists>s' ev. paint exampleConsts (newWaveformItem exampleConsts exampleBuffer4 4 2) 1 0 4 False
             = Inr (s', ev)
      \<and> detailLevel s' = VERY_HIGH
      \<and> polylines ev = [[(0, - 1 / 10), (1, 3 / 10), (2, - 1 / 2), (3, 2 / 10)]]"
proof -
  let ?s = "newWaveformItem exampleConsts exampleBuffer4 4 2"
  have nz: "rwidth (rect (?s\<lparr>globalScaleFactor := 1\<rparr>)) * globalScaleFactor (?s\<lparr>globalScaleFactor := 1\<rparr>) \<noteq> 0"
    by (simp add: newWaveformItem_def)
  from resetSampleBins_result [OF nz, of exampleConsts]
  obtain s1 ev1 where r: "resetSampleBins exampleConsts (?s\<lparr>globalScaleFactor := 1\<rparr>) = Inr (s1, ev1)"
    and d: "detailLevel s1 = VERY_HIGH"
    by (auto simp: newWaveformItem_def exampleBuffer4_def getNumFrames_def detailLevelFor_def
        exampleConsts_def)
  have pr: "paintRescale exampleConsts ?s 1 = Inr (s1, ev1)"
    using r by (simp add: paintRescale_def newWaveformItem_def exampleConsts_def)
  have n: "getNumFrames (sampleBuffer ?s) = 4" "getNumChannels (sampleBuffer ?s) = 1"
          "rwidth (rect ?s) = 4"
    by (simp_all add: newWaveformItem_def exampleBuffer4_def getNumFrames_def getNumChannels_def)
  have wf: "\<forall>c \<in> set (channelData (sampleBuffer ?s)). int (length c) = getNumFrames (sampleBuffer ?s)"
    by (simp add: newWaveformItem_def exampleBuffer4_def getNumFrames_def)
  note t = very_high_polyline [of exampleConsts ?s 1 0 4 False s1 _ s1 ev1]
  obtain ev where p: "paint exampleConsts ?s 1 0 4 False = Inr (s1, ev)"
    using t [of ev1] wf n pr d by auto
  have fr: "firstVisibleFrame ?s 0 = 0" "lastVisibleFrame ?s 4 = 3"
    by (simp_all add: firstVisibleFrame_def lastVisibleFrame_def n)
  have "polylines ev = [[(0, - 1 / 10), (1, 3 / 10), (2, - 1 / 2), (3, 2 / 10)]]"
    using t [of ev] p d
    by (simp add: fr n upto.simps)
       (simp add: newWaveformItem_def exampleBuffer4_def)
  with p d show ?thesis by blast
qed

subsection \<open>The zoom check\<close>

lemma resizes_append [simp]: "resizes (xs @ ys) = resizes xs @ resizes ys"
  by (simp add: resizes_def)

lemma resizes_resizeArrays:
  "resizes (resizeArrays n k) = concat (map (\<lambda>c. [(MinValues, c, k), (MaxValues, c, k)]) [0..<n])"
  by (induction n) (simp_all add: resizes_def resizeArrays_def)

lemma resetSampleBins_resizes:
  assumes "resetSampleBins P s = Inr (s', ev)"
  shows "resizes ev = (if detailLevel s' = VERY_HIGH then []
                       else concat (map (\<lambda>c. [(MinValues, c, numBins s'), (MaxValues, c, numBins s')])
                                        [0..<getNumChannels (sampleBuffer s)]))"
  using assms
  by (auto simp: resetSampleBins_def Let_def resizes_resizeArrays split: if_splits)
     (simp_all add: resizes_def)

lemma in_fillEvents:
  "e \<in> set (fillEvents s a b) \<Longrightarrow>
     (\<exists>c st len. e = FindMinMax c st len)
     \<or> (\<exists>w c k v. e = ArraySet w c k v \<and> c < getNumChannels (sampleBuffer s) \<and> a \<le> k \<and> k \<le> b)"
  by (auto simp: fillEvents_def binEvents_def Let_def)

lemma in_cacheVisibleBins:
  assumes "e \<in> set (snd (cacheVisibleBins P fv lv s))"
  shows "(\<exists>c st len. e = FindMinMax c st len) \<or> (\<exists>w c k v. e = ArraySet w c k v)"
proof (cases "cacheNotSet P s")
  case True
  with assms show ?thesis
    by (auto simp: cacheVisibleBins_notSet dest: in_fillEvents)
next
  case False
  with assms show ?thesis
    by (auto simp: cacheVisibleBins_set dest: in_fillEvents split: if_splits)
qed

lemma cacheVisibleBins_resizes: "resizes (snd (cacheVisibleBins P fv lv s)) = []"
  unfolding resizes_def
proof (rule concat_map_Nil)
  fix e assume "e \<in> set (snd (cacheVisibleBins P fv lv s))"
  from in_cacheVisibleBins [OF this] show "resizeOf e = []" by auto
qed

lemma drawBins_resizes:
  assumes "drawBins s fv lv = Inr evs"
  shows "resizes evs = []"
  unfolding resizes_def
proof (rule concat_map_Nil)
  fix e assume "e \<in> set evs"
  with assms show "resizeOf e = []"
    by (auto simp: drawBins_def Let_def lowBin_def split: if_splits)
qed

lemma samplePolylines_events:
  "samplePolylines b d frames numChans chans = Inr evs \<Longrightarrow> e \<in> set evs \<Longrightarrow>
     (\<exists>ps. e = DrawPolyline ps) \<or> (\<exists>x y. e = Translate x y)"
  by (induction chans arbitrary: evs) (auto split: sum.splits)

lemma drawWaveformFromSamples_resizes:
  assumes "drawWaveformFromSamples s L R = Inr evs"
  shows "resizes evs = []"
  unfolding resizes_def
proof (rule concat_map_Nil)
  fix e assume e: "e \<in> set evs"
  from assms obtain d frames numChans chans
    where "samplePolylines (sampleBuffer s) d frames numChans chans = Inr evs"
    by (auto simp: drawWaveformFromSamples_def Let_def split: if_splits)
  from samplePolylines_events [OF this e] show "resizeOf e = []" by auto
qed

lemma paintWaveform_Inr:
  assumes "paintWaveform P s1 L R = Inr (s2, evs)"
  shows "sameZoom s1 s2" and "resizes evs = []"
    and "detailLevel s1 \<noteq> VERY_HIGH \<Longrightarrow>
           s2 = fst (cacheVisibleBins P (firstVisibleBin s1 L) (lastVisibleBin s1 R) s1)
           \<and> (\<exists>dr. drawBins s2 (firstVisibleBin s1 L) (lastVisibleBin s1 R) = Inr dr
                  \<and> evs = snd (cacheVisibleBins P (firstVisibleBin s1 L) (lastVisibleBin s1 R) s1)
                           @ dr)"
proof -
  let ?r = "cacheVisibleBins P (firstVisibleBin s1 L) (lastVisibleBin s1 R) s1"
  show 3: "detailLevel s1 \<noteq> VERY_HIGH \<Longrightarrow>
           s2 = fst ?r \<and> (\<exists>dr. drawBins s2 (firstVisibleBin s1 L) (lastVisibleBin s1 R) = Inr dr
                  \<and> evs = snd ?r @ dr)"
    using assms
    by (auto simp: paintWaveform_def drawWaveformFromSampleBins_def Let_def split: sum.splits)
  show "sameZoom s1 s2"
  proof (cases "detailLevel s1 = VERY_HIGH")
    case True
    with assms show ?thesis by (auto simp: paintWaveform_def split: sum.splits)
  next
    case False
    from 3 [OF this] show ?thesis by (simp add: cacheVisibleBins_sameZoom)
  qed
  show "resizes evs = []"
  proof (cases "detailLevel s1 = VERY_HIGH")
    case True
    with assms show ?thesis
      by (auto simp: paintWaveform_def drawWaveformFromSamples_resizes split: sum.splits)
  next
    case False
    from 3 [OF this] show ?thesis
      by (auto simp: cacheVisibleBins_resizes drawBins_resizes)
  qed
qed

text \<open>
  Claim C2. When the painter's scale factor \<open>z2\<close> differs from the stored one (and width
  times \<open>z2\<close> is not zero), the zoom check of \<^verbatim>\<open>paint\<close> returns a state that stores
  \<open>z2\<close>, with \<open>numBins\<close> and \<open>binSize\<close> recomputed from it, the detail level derived
  from the new bin size, and both ends of the cached range at the sentinel; it resizes
  the min and the max array of every channel to \<open>numBins\<close>, except at VERY_HIGH detail,
  where it resizes nothing. A paint that returns keeps that scale factor, \<open>numBins\<close>,
  \<open>binSize\<close> and detail level, resizes nothing else, and at a bin-based detail level
  fills the whole visible range whatever was cached before.
\<close>

theorem zoom_change_resets:
  assumes "globalScaleFactor s \<noteq> z2" and "rwidth (rect s) * z2 \<noteq> 0"
  shows "\<exists>s1 ev1. paintRescale P s z2 = Inr (s1, ev1)
     \<and> globalScaleFactor s1 = z2
     \<and> numBins s1 = int_of_qreal (rwidth (rect s) * z2)
     \<and> binSize s1 = real_of_int (getNumFrames (sampleBuffer s)) / (rwidth (rect s) * z2)
     \<and> detailLevel s1 = detailLevelFor P (binSize s1)
     \<and> firstCalculatedBin s1 = NOT_SET P \<and> lastCalculatedBin s1 = NOT_SET P
     \<and> resizes ev1 =
         (if detailLevel s1 = VERY_HIGH then []
          else concat (map (\<lambda>c. [(MinValues, c, numBins s1), (MaxValues, c, numBins s1)])
                           [0..<getNumChannels (sampleBuffer s)]))
     \<and> (\<forall>L R sel s2 ev2. paint P s z2 L R sel = Inr (s2, ev2) \<longrightarrow>
           sameZoom s1 s2 \<and> resizes ev2 = resizes ev1
           \<and> (detailLevel s1 \<noteq> VERY_HIGH \<longrightarrow>
                binsFilled ev2 = binGrid (getNumChannels (sampleBuffer s))
                                   (firstVisibleBin s1 L) (lastVisibleBin s1 R)))"
proof -
  let ?t = "s\<lparr>globalScaleFactor := z2\<rparr>"
  have nz: "rwidth (rect ?t) * globalScaleFactor ?t \<noteq> 0" using assms(2) by simp
  from resetSampleBins_result [OF nz, of P]
  obtain s1 ev1 where all: "resetSampleBins P ?t = Inr (s1, ev1)
           \<and> numBins s1 = int_of_qreal (rwidth (rect ?t) * globalScaleFactor ?t)
           \<and> binSize s1 = real_of_int (getNumFrames (sampleBuffer ?t))
                            / (rwidth (rect ?t) * globalScaleFactor ?t)
           \<and> detailLevel s1 = detailLevelFor P (binSize s1)
           \<and> firstCalculatedBin s1 = NOT_SET P \<and> lastCalculatedBin s1 = NOT_SET P
           \<and> globalScaleFactor s1 = globalScaleFactor ?t \<and> rect s1 = rect ?t
           \<and> sampleBuffer s1 = sampleBuffer ?t"
    by blast
  then have r: "resetSampleBins P ?t = Inr (s1, ev1)" by (rule conjunct1)
  have f: "numBins s1 = int_of_qreal (rwidth (rect s) * z2)"
           "binSize s1 = real_of_int (getNumFrames (sampleBuffer s)) / (rwidth (rect s) * z2)"
           "detailLevel s1 = detailLevelFor P (binSize s1)"
           "firstCalculatedBin s1 = NOT_SET P" "lastCalculatedBin s1 = NOT_SET P"
           "globalScaleFactor s1 = z2" "sampleBuffer s1 = sampleBuffer s"
    using all by simp_all
  have pr: "paintRescale P s z2 = Inr (s1, ev1)"
    using r assms(1) by (simp add: paintRescale_def)
  have rs: "resizes ev1 =
         (if detailLevel s1 = VERY_HIGH then []
          else concat (map (\<lambda>c. [(MinValues, c, numBins s1), (MaxValues, c, numBins s1)])
                           [0..<getNumChannels (sampleBuffer s)]))"
    using resetSampleBins_resizes [OF r] by simp
  have ns: "cacheNotSet P s1" using f by (simp add: cacheNotSet_def)
  have p: "sameZoom s1 s2 \<and> resizes ev2 = resizes ev1
           \<and> (detailLevel s1 \<noteq> VERY_HIGH \<longrightarrow>
                binsFilled ev2 = binGrid (getNumChannels (sampleBuffer s))
                                   (firstVisibleBin s1 L) (lastVisibleBin s1 R))"
    if "paint P s z2 L R sel = Inr (s2, ev2)" for L R sel s2 ev2
  proof -
    from that pr obtain evs where w: "paintWaveform P s1 L R = Inr (s2, evs)"
      and ev: "ev2 = ev1 @ paintBackground s1 @ evs @ [Restore]
               @ (if sel then [SetBrush HighlightBrush, DrawRect (rect s1)] else [])"
      by (auto elim!: paint_Inr)
    note pw = paintWaveform_Inr [OF w]
    have 1: "resizes ev2 = resizes ev1"
      unfolding ev resizes_append
      by (simp only: pw(2) paintBackground_plain paintTail_plain [unfolded resizes_append]
          append_Nil2)
    have 2: "binsFilled ev2 = binGrid (getNumChannels (sampleBuffer s))
                                   (firstVisibleBin s1 L) (lastVisibleBin s1 R)"
      if d: "detailLevel s1 \<noteq> VERY_HIGH"
    proof -
      from pw(3) [OF d] obtain dr where
        dr: "drawBins s2 (firstVisibleBin s1 L) (lastVisibleBin s1 R) = Inr dr"
        and evs: "evs = snd (cacheVisibleBins P (firstVisibleBin s1 L) (lastVisibleBin s1 R) s1) @ dr"
        by blast
      have "binsFilled ev2
              = binsFilled (snd (cacheVisibleBins P (firstVisibleBin s1 L) (lastVisibleBin s1 R) s1))"
        unfolding ev evs binsFilled_append
        using paintRescale_Inr(7) [OF pr] paintBackground_no_fill [of s1]
              drawBins_no_fill [OF dr] paintTail_plain(5) [of sel "rect s1"]
        by (simp del: append.simps)
      then show ?thesis
        by (simp add: cacheVisibleBins_notSet [OF ns] binsFilled_fillEvents f)
    qed
    from pw(1) 1 2 show ?thesis by blast
  qed
  from pr f rs p show ?thesis by blast
qed

subsection \<open>Cache indices\<close>

lemma in_binsAccessed:
  "cb \<in> set (binsAccessed evs) \<longleftrightarrow> (\<exists>e \<in> set evs. cb \<in> set (accessedBin e))"
  by (auto simp: binsAccessed_def)

lemma binsAccessed_Nil [simp]: "binsAccessed [] = []"
  by (simp add: binsAccessed_def)

lemma binsAccessed_append [simp]: "binsAccessed (xs @ ys) = binsAccessed xs @ binsAccessed ys"
  by (simp add: binsAccessed_def)

lemma fillEvents_accesses:
  assumes "cb \<in> set (binsAccessed (fillEvents s a b))"
  shows "fst cb < getNumChannels (sampleBuffer s) \<and> a \<le> snd cb \<and> snd cb \<le> b"
proof -
  from assms obtain e where e: "e \<in> set (fillEvents s a b)" and cb: "cb \<in> set (accessedBin e)"
    by (auto simp: in_binsAccessed)
  from in_fillEvents [OF e] cb show ?thesis by auto
qed

lemma drawBins_accesses:
  assumes "drawBins s fv lv = Inr evs" and "cb \<in> set (binsAccessed evs)"
  shows "fst cb < getNumChannels (sampleBuffer s) \<and> fv \<le> snd cb \<and> snd cb \<le> lv"
proof -
  from assms(2) obtain e where e: "e \<in> set evs" and cb: "cb \<in> set (accessedBin e)"
    by (auto simp: in_binsAccessed)
  from assms(1) e cb show ?thesis
    by (auto simp: drawBins_def Let_def lowBin_def split: if_splits)
qed

lemma visibleBins_bounds:
  "0 \<le> firstVisibleBin s L" "lastVisibleBin s R \<le> numBins s - 1"
  by (simp_all add: firstVisibleBin_def lastVisibleBin_def)

lemma visibleBins_inside:
  assumes "numBins s = int_of_qreal (rwidth (rect s) * globalScaleFactor s)"
      and "0 < globalScaleFactor s" and "0 \<le> L" and "L \<le> rwidth (rect s)" and "0 \<le> R"
  shows "firstVisibleBin s L \<le> numBins s" and "- 1 \<le> lastVisibleBin s R"
proof -
  let ?g = "globalScaleFactor s"
  have w: "0 \<le> rwidth (rect s) * ?g"
    using assms(2,3,4) by simp
  then have n: "numBins s = \<lfloor>rwidth (rect s) * ?g\<rfloor>"
    using assms(1) by (simp add: int_of_qreal_def)
  have "L * ?g \<le> rwidth (rect s) * ?g"
    using assms(2,4) by (simp add: mult_right_mono)
  then have "\<lfloor>L * ?g\<rfloor> \<le> numBins s"
    unfolding n by (rule floor_mono)
  moreover have "0 \<le> numBins s"
    unfolding n using w by simp
  ultimately show "firstVisibleBin s L \<le> numBins s"
    by (simp add: firstVisibleBin_def)
  have "0 \<le> R * ?g" using assms(2,5) by simp
  then have "0 \<le> \<lceil>R * ?g\<rceil>"
    by simp
  with \<open>0 \<le> numBins s\<close> show "- 1 \<le> lastVisibleBin s R"
    unfolding lastVisibleBin_def by linarith
qed

lemma cacheVisibleBins_range:
  "firstCalculatedBin (fst (cacheVisibleBins P fv lv s))
     = (if cacheNotSet P s then fv else min fv (firstCalculatedBin s))"
  "lastCalculatedBin (fst (cacheVisibleBins P fv lv s))
     = (if cacheNotSet P s then lv else max lv (lastCalculatedBin s))"
  by (simp_all add: cacheVisibleBins_notSet cacheVisibleBins_set)

lemma cacheVisibleBins_accesses:
  assumes "cb \<in> set (binsAccessed (snd (cacheVisibleBins P fv lv s)))"
      and "cacheNotSet P s \<or> (firstCalculatedBin s \<le> n \<and> - 1 \<le> lastCalculatedBin s)"
      and "0 \<le> fv" and "lv \<le> n - 1"
  shows "fst cb < getNumChannels (sampleBuffer s) \<and> 0 \<le> snd cb \<and> snd cb < n"
proof (cases "cacheNotSet P s")
  case True
  with assms(1) have "cb \<in> set (binsAccessed (fillEvents s fv lv))"
    by (simp add: cacheVisibleBins_notSet)
  from fillEvents_accesses [OF this] assms(3,4) show ?thesis by simp
next
  case False
  with assms(2) have b: "firstCalculatedBin s \<le> n" "- 1 \<le> lastCalculatedBin s" by simp_all
  from assms(1) False
  have "cb \<in> set (binsAccessed (fillEvents s fv (firstCalculatedBin s - 1)))
        \<or> cb \<in> set (binsAccessed (fillEvents s (lastCalculatedBin s + 1) lv))"
    by (auto simp: cacheVisibleBins_set split: if_splits)
  then show ?thesis
    using b assms(3,4) by (auto dest!: fillEvents_accesses)
qed

lemma paint_rescaled_bins_returns:
  assumes "paintRescale P s m11 = Inr (s1, ev1)" and "m11 \<noteq> 0"
      and "0 < getNumChannels (sampleBuffer s)"
      and "detailLevel s1 = LOW
           \<or> (detailLevel s1 = HIGH \<and> firstVisibleBin s1 L \<le> lastVisibleBin s1 R + 1)"
  shows "\<exists>s' ev. paint P s m11 L R sel = Inr (s', ev)"
proof -
  let ?r = "cacheVisibleBins P (firstVisibleBin s1 L) (lastVisibleBin s1 R) s1"
  have z: "sameZoom s1 (fst ?r)" by (rule cacheVisibleBins_sameZoom)
  have g: "globalScaleFactor s1 = m11" "sampleBuffer s1 = sampleBuffer s"
    using paintRescale_Inr(1,3) [OF assms(1)] by simp_all
  have "\<exists>evs. drawBins (fst ?r) (firstVisibleBin s1 L) (lastVisibleBin s1 R) = Inr evs"
    using assms(2,3,4) z g by (auto simp: drawBins_def Let_def sameZoom_def)
  then show ?thesis
    using assms
    by (auto simp: paint_def paintWaveform_def drawWaveformFromSampleBins_def Let_def)
qed

text \<open>
  Claim C3, as the code has it. For every exposed rectangle the first visible bin is at
  least 0 and the last visible bin at most \<open>numBins - 1\<close>. Take a bin-based paint with a
  positive scale factor and an exposed rectangle that starts inside the item
  (\<open>0 \<le> L \<le> width\<close>, \<open>0 \<le> R\<close>), from a state where \<open>binsInv\<close> holds or whose scale
  factor differs from the painter's. Then the first visible bin is at most \<open>numBins\<close> and
  the last visible bin at least -1; every index at which the paint reads or writes a
  cache array lies in \<open>0..numBins - 1\<close>, for a channel of the buffer; \<open>binsInv\<close> holds
  afterwards; and every bin between the first and the last calculated bin lies in
  \<open>0..numBins - 1\<close>.
\<close>

theorem bin_accesses_in_bounds:
  assumes p: "paint P s m11 L R sel = Inr (s', ev)" and d: "detailLevel s' \<noteq> VERY_HIGH"
      and inv: "binsInv P s \<or> globalScaleFactor s \<noteq> m11"
      and m: "0 < m11" and l: "0 \<le> L" "L \<le> rwidth (rect s)" and r: "0 \<le> R"
  shows "(\<forall>L' R'. 0 \<le> firstVisibleBin s' L' \<and> lastVisibleBin s' R' \<le> numBins s' - 1)
       \<and> firstVisibleBin s' L \<le> numBins s' \<and> - 1 \<le> lastVisibleBin s' R
       \<and> (\<forall>cb \<in> set (binsAccessed ev).
             fst cb < getNumChannels (sampleBuffer s) \<and> 0 \<le> snd cb \<and> snd cb < numBins s')
       \<and> binsInv P s'
       \<and> (\<forall>b. \<not> cacheNotSet P s' \<and> firstCalculatedBin s' \<le> b \<and> b \<le> lastCalculatedBin s'
              \<longrightarrow> 0 \<le> b \<and> b < numBins s')"
proof -
  from p obtain s1 ev1 evs where pr: "paintRescale P s m11 = Inr (s1, ev1)"
    and w: "paintWaveform P s1 L R = Inr (s', evs)"
    and ev: "ev = ev1 @ paintBackground s1 @ evs @ [Restore]
               @ (if sel then [SetBrush HighlightBrush, DrawRect (rect s1)] else [])"
    by (auto elim: paint_Inr)
  note pw = paintWaveform_Inr [OF w]
  note rs = paintRescale_Inr [OF pr]
  have d1: "detailLevel s1 \<noteq> VERY_HIGH"
    using pw(1) d by (simp add: sameZoom_def)
  let ?fv = "firstVisibleBin s1 L" and ?lv = "lastVisibleBin s1 R"
  let ?r = "cacheVisibleBins P ?fv ?lv s1"
  from pw(3) [OF d1] obtain dr where s': "s' = fst ?r"
    and dr: "drawBins s' ?fv ?lv = Inr dr" and evs: "evs = snd ?r @ dr"
    by blast
  have inv1: "binsInv P s1"
  proof (cases "globalScaleFactor s = m11")
    case True
    with inv rs(8) show ?thesis by simp
  next
    case False
    from rs(9) [OF False]
    have "numBins s1 = int_of_qreal (rwidth (rect s) * m11) \<and> cacheNotSet P s1"
      by (auto simp: resetSampleBins_def Let_def cacheNotSet_def split: if_splits)
    then show ?thesis
      by (simp add: binsInv_def rs(1,2))
  qed
  have same: "numBins s' = numBins s1" "globalScaleFactor s' = m11" "rect s' = rect s"
             "sampleBuffer s' = sampleBuffer s"
    using pw(1) rs(1,2,3) by (simp_all add: sameZoom_def)
  have vis: "firstVisibleBin s' X = firstVisibleBin s1 X" "lastVisibleBin s' X = lastVisibleBin s1 X"
    for X
    using visibleBin_sameZoom [OF pw(1)] by simp_all
  have n1: "numBins s1 = int_of_qreal (rwidth (rect s1) * globalScaleFactor s1)"
    using inv1 by (simp add: binsInv_def)
  have b0: "0 \<le> ?fv" "?lv \<le> numBins s1 - 1"
    by (rule visibleBins_bounds)+
  have b1: "?fv \<le> numBins s1" "- 1 \<le> ?lv"
    using visibleBins_inside [OF n1, of L R] m l r rs(1,2) by simp_all
  have c1: "\<forall>L' R'. 0 \<le> firstVisibleBin s' L' \<and> lastVisibleBin s' R' \<le> numBins s' - 1"
    using visibleBins_bounds [of s'] by blast
  have c2: "firstVisibleBin s' L \<le> numBins s' \<and> - 1 \<le> lastVisibleBin s' R"
    using b1 by (simp add: vis same)
  have old: "cacheNotSet P s1 \<or> (firstCalculatedBin s1 \<le> numBins s1 \<and> - 1 \<le> lastCalculatedBin s1)"
    using inv1 by (auto simp: binsInv_def)
  have c3: "fst cb < getNumChannels (sampleBuffer s) \<and> 0 \<le> snd cb \<and> snd cb < numBins s'"
    if "cb \<in> set (binsAccessed ev)" for cb
  proof -
    from that have "cb \<in> set (binsAccessed (snd ?r)) \<or> cb \<in> set (binsAccessed dr)"
      unfolding ev evs binsAccessed_append
      by (simp only: rs(5) paintBackground_plain paintTail_plain [unfolded binsAccessed_append]
          append_Nil append_Nil2 set_append Un_iff)
    then show ?thesis
    proof
      assume "cb \<in> set (binsAccessed (snd ?r))"
      from cacheVisibleBins_accesses [OF this old b0]
      show ?thesis by (simp add: same rs(3))
    next
      assume "cb \<in> set (binsAccessed dr)"
      from drawBins_accesses [OF dr this] b0
      show ?thesis by (simp add: same)
    qed
  qed
  have rng: "0 \<le> firstCalculatedBin s' \<and> firstCalculatedBin s' \<le> numBins s1
           \<and> - 1 \<le> lastCalculatedBin s' \<and> lastCalculatedBin s' \<le> numBins s1 - 1"
    using inv1 b0 b1 unfolding s' cacheVisibleBins_range binsInv_def
    by (cases "cacheNotSet P s1") auto
  have c4: "binsInv P s'"
    using rng n1 rs(1,2) by (simp add: binsInv_def same)
  have c5: "\<forall>b. \<not> cacheNotSet P s' \<and> firstCalculatedBin s' \<le> b \<and> b \<le> lastCalculatedBin s'
              \<longrightarrow> 0 \<le> b \<and> b < numBins s'"
    using rng by (auto simp: same)
  from c1 c2 c3 c4 c5 show ?thesis by blast
qed

text \<open>
  Claim C3 as stated puts the first visible bin in \<open>0..numBins - 1\<close>. It fails: a new item
  of width 10.5 painted at scale factor 1 has 10 bins, and for the exposed rectangle from
  10.25 to 10.5, inside the item, the first visible bin and then the first calculated bin
  are 10.
\<close>

theorem bin_accesses_in_bounds_counterexample:
  "(case paint exampleConsts (newWaveformItem exampleConsts exampleBuffer64 (21 / 2) 2)
           1 (41 / 4) (21 / 2) False of
      Inl e \<Rightarrow> False
    | Inr r \<Rightarrow> detailLevel (fst r) = HIGH \<and> numBins (fst r) = 10
                \<and> firstVisibleBin (fst r) (41 / 4) = 10 \<and> firstCalculatedBin (fst r) = 10)"
  by (simp add: paint_def paintRescale_def resetSampleBins_def paintWaveform_def
      drawWaveformFromSampleBins_def cacheVisibleBins_def fillWhenNotSet_def fillBefore_def
      fillAfter_def findMinMaxSamples_def drawBins_def firstVisibleBin_def lastVisibleBin_def
      newWaveformItem_def exampleConsts_def exampleBuffer64_def getNumFrames_def
      getNumChannels_def int_of_qreal_def Let_def)

text \<open>The theorem at a paint of the whole item of width 4 with 4 bins.\<close>

theorem bin_accesses_in_bounds_witness:
  "\<exists>s' ev. paint exampleConsts exampleItemLow 1 0 4 False = Inr (s', ev)
      \<and> detailLevel s' = LOW \<and> numBins s' = 4
      \<and> firstVisibleBin s' 0 = 0 \<and> lastVisibleBin s' 4 = 3
      \<and> (\<forall>cb \<in> set (binsAccessed ev). fst cb < 1 \<and> 0 \<le> snd cb \<and> snd cb < 4)
      \<and> binsInv exampleConsts s'"
proof -
  let ?s = exampleItemLow
  have g: "globalScaleFactor ?s = 1" and dl: "detailLevel ?s = LOW"
    and n: "getNumChannels (sampleBuffer ?s) = 1" and nb: "numBins ?s = 4"
    and w: "rwidth (rect ?s) = 4"
    by (simp_all add: exampleItemLow_def newWaveformItem_def exampleBuffer64_def
        getNumChannels_def)
  have inv: "binsInv exampleConsts ?s"
    by (simp add: binsInv_def cacheNotSet_def exampleItemLow_def newWaveformItem_def
        int_of_qreal_def)
  have pr: "paintRescale exampleConsts ?s 1 = Inr (?s, [])"
    by (simp add: paintRescale_def g)
  obtain s' ev where p: "paint exampleConsts ?s 1 0 4 False = Inr (s', ev)"
    using paint_rescaled_bins_returns [OF pr, of 0 4 False] n dl by auto
  have z: "sameZoom ?s s'"
    using paint_same_zoom_bins(1) [OF g _ p] cacheVisibleBins_sameZoom [of ?s] dl by simp
  then have d': "detailLevel s' = LOW" and nb': "numBins s' = 4"
    using dl nb by (simp_all add: sameZoom_def)
  have v: "firstVisibleBin s' 0 = 0" "lastVisibleBin s' 4 = 3"
    using z g nb by (simp_all add: firstVisibleBin_def lastVisibleBin_def sameZoom_def)
  from bin_accesses_in_bounds [OF p] d' inv w
  have "(\<forall>cb \<in> set (binsAccessed ev). fst cb < 1 \<and> 0 \<le> snd cb \<and> snd cb < 4)
        \<and> binsInv exampleConsts s'"
    by (simp add: n nb')
  with p d' nb' v show ?thesis by blast
qed

text \<open>The theorem at the first paint (scale factor 1) of a new item of width 4 with 64 frames.\<close>

theorem zoom_change_resets_witness:
  "\<exists>s1 ev1. paintRescale exampleConsts (newWaveformItem exampleConsts exampleBuffer64 4 2) 1
               = Inr (s1, ev1)
      \<and> globalScaleFactor s1 = 1 \<and> numBins s1 = 4 \<and> binSize s1 = 16 \<and> detailLevel s1 = LOW
      \<and> firstCalculatedBin s1 = - 1 \<and> lastCalculatedBin s1 = - 1
      \<and> resizes ev1 = [(MinValues, 0, 4), (MaxValues, 0, 4)]
      \<and> (\<exists>s2 ev2. paint exampleConsts (newWaveformItem exampleConsts exampleBuffer64 4 2)
                      1 0 4 False = Inr (s2, ev2)
            \<and> numBins s2 = 4 \<and> resizes ev2 = [(MinValues, 0, 4), (MaxValues, 0, 4)]
            \<and> binsFilled ev2 = [(0, 0), (0, 1), (0, 2), (0, 3)])"
proof -
  let ?s = "newWaveformItem exampleConsts exampleBuffer64 4 2"
  have a: "globalScaleFactor ?s \<noteq> 1" "rwidth (rect ?s) * 1 \<noteq> 0"
    by (simp_all add: newWaveformItem_def exampleConsts_def)
  have n: "getNumChannels (sampleBuffer ?s) = 1" "getNumFrames (sampleBuffer ?s) = 64"
          "rwidth (rect ?s) = 4" "NOT_SET exampleConsts = - 1"
    by (simp_all add: newWaveformItem_def exampleBuffer64_def getNumChannels_def
        getNumFrames_def exampleConsts_def)
  from zoom_change_resets [OF a, of exampleConsts]
  obtain s1 ev1 where all: "paintRescale exampleConsts ?s 1 = Inr (s1, ev1)
     \<and> globalScaleFactor s1 = 1
     \<and> numBins s1 = int_of_qreal (rwidth (rect ?s) * 1)
     \<and> binSize s1 = real_of_int (getNumFrames (sampleBuffer ?s)) / (rwidth (rect ?s) * 1)
     \<and> detailLevel s1 = detailLevelFor exampleConsts (binSize s1)
     \<and> firstCalculatedBin s1 = NOT_SET exampleConsts
     \<and> lastCalculatedBin s1 = NOT_SET exampleConsts
     \<and> resizes ev1 =
         (if detailLevel s1 = VERY_HIGH then []
          else concat (map (\<lambda>c. [(MinValues, c, numBins s1), (MaxValues, c, numBins s1)])
                           [0..<getNumChannels (sampleBuffer ?s)]))
     \<and> (\<forall>L R sel s2 ev2. paint exampleConsts ?s 1 L R sel = Inr (s2, ev2) \<longrightarrow>
           sameZoom s1 s2 \<and> resizes ev2 = resizes ev1
           \<and> (detailLevel s1 \<noteq> VERY_HIGH \<longrightarrow>
                binsFilled ev2 = binGrid (getNumChannels (sampleBuffer ?s))
                                   (firstVisibleBin s1 L) (lastVisibleBin s1 R)))"
    by blast
  then have pr: "paintRescale exampleConsts ?s 1 = Inr (s1, ev1)" by (rule conjunct1)
  have f: "globalScaleFactor s1 = 1" "numBins s1 = 4" "binSize s1 = 16"
          "firstCalculatedBin s1 = - 1" "lastCalculatedBin s1 = - 1"
    using all by (simp_all add: n int_of_qreal_def)
  have dl0: "detailLevel s1 = detailLevelFor exampleConsts (binSize s1)"
    using all by blast
  have rs: "resizes ev1 =
         (if detailLevel s1 = VERY_HIGH then []
          else concat (map (\<lambda>c. [(MinValues, c, numBins s1), (MaxValues, c, numBins s1)])
                           [0..<getNumChannels (sampleBuffer ?s)]))"
    using all by blast
  have pa: "\<forall>L R sel s2 ev2. paint exampleConsts ?s 1 L R sel = Inr (s2, ev2) \<longrightarrow>
           sameZoom s1 s2 \<and> resizes ev2 = resizes ev1
           \<and> (detailLevel s1 \<noteq> VERY_HIGH \<longrightarrow>
                binsFilled ev2 = binGrid (getNumChannels (sampleBuffer ?s))
                                   (firstVisibleBin s1 L) (lastVisibleBin s1 R))"
    using all by blast
  have dl: "detailLevel s1 = LOW"
    using f dl0 by (simp add: detailLevelFor_def exampleConsts_def)
  have rs': "resizes ev1 = [(MinValues, 0, 4), (MaxValues, 0, 4)]"
    using rs dl f by (simp add: n)
  obtain s2 ev2 where p: "paint exampleConsts ?s 1 0 4 False = Inr (s2, ev2)"
    using paint_rescaled_bins_returns [OF pr, of 0 4 False] n dl by auto
  have v: "firstVisibleBin s1 0 = 0" "lastVisibleBin s1 4 = 3"
    using f by (simp_all add: firstVisibleBin_def lastVisibleBin_def)
  have grid: "binGrid (Suc 0) 0 3 = [(0, 0), (0, 1), (0, 2), (0, 3)]"
    by (simp add: binGrid_def upto.simps)
  from pa p have "sameZoom s1 s2 \<and> resizes ev2 = resizes ev1
           \<and> (detailLevel s1 \<noteq> VERY_HIGH \<longrightarrow>
                binsFilled ev2 = binGrid (getNumChannels (sampleBuffer ?s))
                                   (firstVisibleBin s1 0) (lastVisibleBin s1 4))"
    by blast
  then have "numBins s2 = 4 \<and> resizes ev2 = [(MinValues, 0, 4), (MaxValues, 0, 4)]
            \<and> binsFilled ev2 = [(0, 0), (0, 1), (0, 2), (0, 3)]"
    using dl f rs' by (simp add: sameZoom_def v n grid)
  with pr f dl rs' p show ?thesis by blast
qed

section \<open>Properties of the controller\<close>






lemma fold_snoc_map: "fold (\<lambda>x acc. acc @ [f x]) xs acc0 = acc0 @ map f xs"
  by (induction xs arbitrary: acc0) simp_all

lemma changedNotifications_finished [simp]:
  "changedNotifications (map (\<lambda>item. finishedMoving (f item)) xs) = []"
  by (induction xs) simp_all

lemma finishedNotifications_finished [simp]:
  "finishedNotifications (map (\<lambda>item. finishedMoving (f item)) xs) = map f xs"
  by (induction xs) simp_all

text \<open>
  Claim C5. On release, a finalized reorder notification is emitted exactly when the
  order position differs from the snapshot taken at the press. It carries, for every
  selected item, its order position minus the displacement, so each carried position plus
  the displacement is the item's current position, and the snapshot plus the displacement
  is the item's own position. In either case a finished-moving notification with the
  order position is emitted for every selected item, in order.
\<close>

theorem release_notifications:
  "changedNotifications (mouseReleaseEvent this before sel)
     = (if before \<noteq> orderPos this
        then [(map (\<lambda>item. orderPos item - (orderPos this - before)) sel, orderPos this - before)]
        else [])
   \<and> (\<forall>pn \<in> set (changedNotifications (mouseReleaseEvent this before sel)).
         map (\<lambda>old. old + snd pn) (fst pn) = map orderPos sel \<and> before + snd pn = orderPos this)
   \<and> finishedNotifications (mouseReleaseEvent this before sel) = map orderPos sel"
  by (simp add: mouseReleaseEvent_def fold_snoc_map Let_def o_def)

text \<open>The theorem at a release after a move by two places (from position 1 to position 3).\<close>

theorem release_notifications_witness:
  "changedNotifications (mouseReleaseEvent exampleItemB 1 [exampleItemA, exampleItemB])
     = [([0, 1], 2)]
   \<and> map (\<lambda>old. old + 2) [0, 1] = map orderPos [exampleItemA, exampleItemB]
   \<and> finishedNotifications (mouseReleaseEvent exampleItemB 1 [exampleItemA, exampleItemB]) = [2, 3]"
  using release_notifications [of exampleItemB 1 "[exampleItemA, exampleItemB]"]
  by (simp add: exampleItemA_def exampleItemB_def)

text \<open>
  Claim C6. In a leftward drag (the pointer's screen x is below the last one), with
  \<open>occupant\<close> the last of the items the scene reports at the scene position of the
  leftmost selected item, the handler returns, and it emits a reorder proposal exactly when
  the occupant is not the item handling the event, is a waveform item, has a strictly
  smaller order position than the leftmost selected item, and the leftmost selected item's
  left edge is left of the midpoint of the occupant's rect. The proposal carries the order
  positions of all selected items and the occupant's order position minus the leftmost
  selected item's.
\<close>

theorem leftward_drag_proposal:
  assumes "screenPos_x event < lastScreenPos_x event"
      and "selectedItems = leftmost # others"
      and "itemsAt (scenePos leftmost) = onTop @ [occupant]"
  shows "mouseMoveEvent this selectedItems itemsAt event =
           Inr (if itemId occupant \<noteq> itemId this \<and> itemType occupant = WaveformItem_Type
                   \<and> orderPos occupant < orderPos leftmost \<and> crossedMidpoint leftmost occupant
                then [orderPosIsChanging (map orderPos selectedItems)
                        (orderPos occupant - orderPos leftmost)]
                else [])"
  using assms
  by (simp add: mouseMoveEvent_def dragLeft_def collectOrderPositions_def fold_snoc_map
      crossedMidpoint_def center_x_def Let_def)

text \<open>
  The theorem at two adjacent items of order positions 2 and 3, the second dragged left
  past the midpoint of the first: the displacement is -1.
\<close>

theorem leftward_drag_proposal_witness:
  "mouseMoveEvent exampleItemB [exampleItemB] exampleItemsAt exampleDragLeft
     = Inr [orderPosIsChanging [3] (- 1)]"
proof -
  have 1: "screenPos_x exampleDragLeft < lastScreenPos_x exampleDragLeft"
    by (simp add: exampleDragLeft_def)
  have 2: "exampleItemsAt (scenePos exampleItemB) = [exampleItemB] @ [exampleItemA]"
    by (simp add: exampleItemsAt_def exampleItemB_def)
  show ?thesis
    using leftward_drag_proposal [where this = exampleItemB and selectedItems = "[exampleItemB]"
        and leftmost = exampleItemB and others = "[]" and itemsAt = exampleItemsAt
        and event = exampleDragLeft and onTop = "[exampleItemB]" and occupant = exampleItemA,
        OF 1 refl 2]
    by (simp add: crossedMidpoint_def exampleItemA_def exampleItemB_def WaveformItem_Type_def)
qed

text \<open>
  Claim C10. Whatever the item's flags and the button, a press leaves the event with its
  modifiers minus the Control modifier (the other modifier bits unchanged), and the event
  handed to the base class handler has no Control modifier.
\<close>

theorem press_clears_control:
  "modifiers (fst (mousePressEvent this flags before event))
     = modifiers event AND NOT ControlModifier
   \<and> modifiers (fst (mousePressEvent this flags before event)) AND ControlModifier = 0
   \<and> modifiers (fst (mousePressEvent this flags before event))
        OR (modifiers event AND ControlModifier) = modifiers event
   \<and> (\<forall>e. BaseMousePressEvent e \<in> set (snd (snd (mousePressEvent this flags before event)))
          \<longrightarrow> modifiers e AND ControlModifier = 0)"
proof -
  have a: "(m AND NOT c) AND c = 0" for m c :: "32 word"
    by (simp add: and.assoc)
  have b: "(m AND NOT c) OR (m AND c) = m" for m c :: "32 word"
    by (rule bit_eqI) (auto simp: bit_simps)
  show ?thesis
    by (simp add: mousePressEvent_def Let_def a b)
qed

text \<open>The theorem at a press with Control held on a movable, selectable item.\<close>

theorem press_clears_control_witness:
  "modifiers (fst (mousePressEvent exampleItemB (ItemIsMovable OR ItemIsSelectable) 0
                     exampleDragLeft)) = 0
   \<and> snd (snd (mousePressEvent exampleItemB (ItemIsMovable OR ItemIsSelectable) 0 exampleDragLeft))
       = [BaseMousePressEvent (exampleDragLeft\<lparr>modifiers := 0\<rparr>)]"
  using press_clears_control [of exampleItemB "ItemIsMovable OR ItemIsSelectable" 0 exampleDragLeft]
  by (simp add: mousePressEvent_def exampleDragLeft_def ItemIsMovable_def ItemIsSelectable_def
      RightButton_def ControlModifier_def Let_def)

end
